theory Spec2Isabelle
  imports Main
begin

section \<open>Exceptions\<close>

text \<open>
  A Python exception is a value: a call that can raise returns \<open>error + 'a\<close>, with
  \<open>Inl\<close> carrying the exception. \<open>Failure\<close> stands for whatever a collaborator
  outside this package raises (the metadata repository, the XML security binding,
  the object database, a file read, a character set).
\<close>

datatype error =
    ValueError string
  | TypeError string
  | AttributeError string
  | KeyError string
  | Failure string

text \<open>Python's \<open>a or b\<close> on an optional string: \<open>None\<close> and the empty string are false.\<close>

fun py_or :: "string option \<Rightarrow> string \<Rightarrow> string" where
  "py_or None d = d"
| "py_or (Some s) d = (if s = [] then d else s)"

text \<open>
  Applying a call that may raise to the items of a list, in order: the first exception
  is the exception of the whole, and without one the results come in the list's order.
\<close>

fun load_all :: "('a \<Rightarrow> error + 'b) \<Rightarrow> 'a list \<Rightarrow> error + 'b list" where
  "load_all f [] = Inr []"
| "load_all f (x # xs) =
     (case f x of
        Inl e \<Rightarrow> Inl e
      | Inr y \<Rightarrow> (case load_all f xs of Inl e \<Rightarrow> Inl e | Inr ys \<Rightarrow> Inr (y # ys)))"

section \<open>Entity ids as object ids (entity.py)\<close>

text \<open>
  An entity id is a Python text string. \<open>urllib\<close>'s \<open>quote\<close> first encodes a text
  string as UTF-8 and works on the bytes; \<open>unquote\<close> rebuilds the bytes and decodes
  them again. The model represents a text string by the list of its UTF-8 bytes (HOL
  characters are bytes), so the encoding step and the decoding step are the identity.
  A string with a lone surrogate has no UTF-8 form and is not a value of this type.
\<close>

subsection \<open>The library functions \<open>quote\<close> and \<open>unquote\<close>\<close>

text \<open>The characters \<open>quote\<close> never escapes, whatever \<open>safe\<close> is.\<close>

definition always_safe :: "string" where
  "always_safe =
     ''ABCDEFGHIJKLMNOPQRSTUVWXYZabcdefghijklmnopqrstuvwxyz0123456789_.-~''"

definition hexdigit :: "nat \<Rightarrow> char" where
  "hexdigit n = ''0123456789ABCDEF'' ! n"

text \<open>One byte of the input: kept when safe, else \<open>%XX\<close> in upper-case hex.\<close>

definition quote_byte :: "string \<Rightarrow> char \<Rightarrow> string" where
  "quote_byte safe c =
     (if c \<in> set always_safe \<or> c \<in> set safe then [c]
      else [CHR ''%'', hexdigit (of_char c div 16), hexdigit (of_char c mod 16)])"

definition urllib_quote :: "string \<Rightarrow> string \<Rightarrow> string" where
  "urllib_quote s safe = concat (map (quote_byte safe) s)"

text \<open>The value of a hex digit; \<open>unquote\<close> accepts both cases.\<close>

definition unhex :: "char \<Rightarrow> nat option" where
  "unhex c =
     (let n = (of_char c :: nat) in
      if 48 \<le> n \<and> n \<le> 57 then Some (n - 48)
      else if 65 \<le> n \<and> n \<le> 70 then Some (n - 55)
      else if 97 \<le> n \<and> n \<le> 102 then Some (n - 87)
      else None)"

text \<open>
  \<open>unquote\<close> splits at every \<open>%\<close>; a piece that starts with two hex digits yields the
  byte they denote, any other piece keeps its \<open>%\<close>. (On text that is not ASCII the
  library decodes each ASCII stretch on its own; what \<open>quote\<close> returns is ASCII.)
\<close>

fun urllib_unquote :: "string \<Rightarrow> string" where
  "urllib_unquote [] = []"
| "urllib_unquote (c # rest) =
     (if c = CHR ''%'' then
        (case rest of
           h1 # h2 # rest' \<Rightarrow>
             (case (unhex h1, unhex h2) of
                (Some a, Some b) \<Rightarrow> char_of (16 * a + b) # urllib_unquote rest'
              | _ \<Rightarrow> c # urllib_unquote rest)
         | _ \<Rightarrow> c # urllib_unquote rest)
      else c # urllib_unquote rest)"

subsection \<open>\<open>_quote\<close> and \<open>_unquote\<close>\<close>

text \<open>The two auxiliaries of entity.py, written without their leading underscore.\<close>

text \<open>\<open>s.replace(a, b)\<close> for one-character \<open>a\<close> and \<open>b\<close>.\<close>

definition replace :: "char \<Rightarrow> char \<Rightarrow> string \<Rightarrow> string" where
  "replace a b s = map (\<lambda>c. if c = a then b else c) s"

definition quote :: "string \<Rightarrow> string" where
  "quote ident = replace (CHR ''%'') (CHR ''$'') (urllib_quote ident [])"

definition unquote :: "string \<Rightarrow> string" where
  "unquote ident = urllib_unquote (replace (CHR ''$'') (CHR ''%'') ident)"

subsection \<open>Entity lookup by object id\<close>

text \<open>
  \<open>get_entity\<close> belongs to the metadata repository of the \<open>dm.saml2\<close> package: a lookup
  in the repository's entity table that yields \<open>default\<close> for an unknown id. The table
  is a map, and \<open>None\<close> is the default. Acquisition wrapping does not change the entity.
\<close>

definition get_entity :: "(string \<rightharpoonup> 'e) \<Rightarrow> string \<Rightarrow> 'e option" where
  "get_entity entities eid = entities eid"

definition getOb :: "(string \<rightharpoonup> 'e) \<Rightarrow> string \<Rightarrow> 'e option" where
  "getOb entities ident =
     (case get_entity entities (unquote ident) of
        None \<Rightarrow> None
      | Some e \<Rightarrow> Some e)"

subsection \<open>Deleting an entity by object id\<close>

text \<open>
  A managed entity: its entity id and whether it is protected (the own entity is).
  \<open>del_entity\<close> of the metadata repository removes the entry of an entity id. The
  \<open>TypeError\<close> carries a translatable message, whose value is the message id
  \<open>protected_entity_deletion\<close> (its default text is "Cannot delete a protected entity").
\<close>

record entity =
  entity_ident :: string
  protected :: bool

definition delOb :: "(string \<rightharpoonup> entity) \<Rightarrow> string \<Rightarrow> (string \<rightharpoonup> entity) \<times> (error + unit)" where
  "delOb entities ident =
     (case get_entity entities (unquote ident) of
        None \<Rightarrow> (entities, Inr ())
      | Some e \<Rightarrow>
          (if protected e then (entities, Inl (TypeError ''protected_entity_deletion''))
           else (entities(entity_ident e := None), Inr ())))"

section \<open>Attribute consuming services and attribute release (attribute.py)\<close>

subsection \<open>The part of an entity's metadata that the provider reads\<close>

record requested_attribute =
  ra_NameFormat :: "string option"
  ra_Name :: string
  ra_FriendlyName :: "string option"

text \<open>\<open>isDefault\<close> is an optional XML attribute: \<open>None\<close> when the document does not set it.\<close>

record attribute_consuming_service =
  index :: int
  isDefault :: "bool option"
  RequestedAttribute :: "requested_attribute list"

record spsso_descriptor =
  AttributeConsumingService :: "attribute_consuming_service list"

record metadata =
  SPSSODescriptor :: "spsso_descriptor list"

subsection \<open>\<open>_attribute_consuming_service\<close>\<close>

text \<open>
  The first inner loop: it stops at the first service that is the default (when no index
  is asked for) or that has the index asked for. \<open>None\<close> is the loop running to its end.
\<close>

fun find_requested ::
  "int option \<Rightarrow> attribute_consuming_service list \<Rightarrow> attribute_consuming_service option" where
  "find_requested ix [] = None"
| "find_requested ix (acs # rest) =
     (if (ix = None \<and> isDefault acs = Some True) \<or> ix = Some (index acs) then Some acs
      else find_requested ix rest)"

text \<open>The second inner loop: the first service without any \<open>isDefault\<close>.\<close>

fun find_without_isDefault ::
  "attribute_consuming_service list \<Rightarrow> attribute_consuming_service option" where
  "find_without_isDefault [] = None"
| "find_without_isDefault (acs # rest) =
     (if isDefault acs = None then Some acs else find_without_isDefault rest)"

text \<open>The body of the outer loop, for one \<open>SPSSODescriptor\<close>.\<close>

definition acs_of_sp ::
  "int option \<Rightarrow> spsso_descriptor \<Rightarrow> attribute_consuming_service option" where
  "acs_of_sp ix sp =
     (case find_requested ix (AttributeConsumingService sp) of
        Some acs \<Rightarrow> Some acs
      | None \<Rightarrow>
         (case AttributeConsumingService sp of
            first # others \<Rightarrow>
              (if ix = None then
                 (case find_without_isDefault (first # others) of
                    Some acs \<Rightarrow> Some acs
                  | None \<Rightarrow> Some first)
               else None)
          | [] \<Rightarrow> None))"

text \<open>The outer loop: it stops at the first descriptor that yields a service.\<close>

fun acs_of_sps ::
  "int option \<Rightarrow> spsso_descriptor list \<Rightarrow> attribute_consuming_service option" where
  "acs_of_sps ix [] = None"
| "acs_of_sps ix (sp # rest) =
     (case acs_of_sp ix sp of
        Some acs \<Rightarrow> Some acs
      | None \<Rightarrow> acs_of_sps ix rest)"

definition attribute_consuming_service_of ::
  "metadata \<Rightarrow> int option \<Rightarrow> attribute_consuming_service option" where
  "attribute_consuming_service_of md ix = acs_of_sps ix (SPSSODescriptor md)"

text \<open>
  The selection rule in the words of the specification, on the services of one service
  provider: the first explicit default, else the first service with no \<open>isDefault\<close>,
  else the first service, and nothing when there is no service.
\<close>

definition select_default ::
  "attribute_consuming_service list \<Rightarrow> attribute_consuming_service option" where
  "select_default acss =
     (case find (\<lambda>a. isDefault a = Some True) acss of
        Some a \<Rightarrow> Some a
      | None \<Rightarrow>
         (case find (\<lambda>a. isDefault a = None) acss of
            Some a \<Rightarrow> Some a
          | None \<Rightarrow> (case acss of [] \<Rightarrow> None | a # _ \<Rightarrow> Some a)))"

text \<open>The services of the first descriptor that declares any.\<close>

definition declared_services :: "metadata \<Rightarrow> attribute_consuming_service list" where
  "declared_services md =
     (case filter (\<lambda>sp. AttributeConsumingService sp \<noteq> []) (SPSSODescriptor md) of
        [] \<Rightarrow> []
      | sp # _ \<Rightarrow> AttributeConsumingService sp)"

subsection \<open>\<open>_make_attribute_statement\<close>\<close>

text \<open>A provided attribute, as the provider's container holds it.\<close>

record provided_attribute =
  att_id :: string
  att_format :: string
  att_title :: string
  att_type :: string
  evaluator :: "string option"

text \<open>
  A raw attribute value, as a member property or an evaluator yields it. The release
  code tells bytes from everything else, and nothing more.
\<close>

datatype pyval = PyNone | PyBytes string | PyText string | PyOther nat

text \<open>\<open>xs_convert_to_xml\<close> returns one value or a list of values.\<close>

datatype 'av converted = Single 'av | Multiple "'av list"

record 'av attribute =
  NameFormat :: string
  Name :: string
  FriendlyName :: string
  AttributeValue :: "'av list"

datatype log_record =
    AcsNotLocated int string
  | AttributeNotFound "string \<times> string" string

text \<open>
  What the function returns: nothing, the status string, or a statement.
\<close>

datatype 'av release =
    Nothing
  | ResourceNotRecognized
  | AttributeStatement "'av attribute list"

text \<open>
  The collaborators of the release: the authority's metadata repository, the provider's
  own container, the member, the evaluators, the character set and the XML-Schema
  conversion of \<open>dm.saml2.util\<close>. Each call that runs foreign code may raise.
\<close>

record 'av provider =
  get_recent_metadata :: "string \<Rightarrow> error + metadata"
  objectValues :: "provided_attribute list"
  unspecified :: string
  getProperty :: "string \<Rightarrow> pyval"
  call_evaluator :: "string \<Rightarrow> provided_attribute \<Rightarrow> string \<Rightarrow> error + pyval"
  decode :: "string \<Rightarrow> error + string"
  xs_convert_to_xml :: "string \<Rightarrow> pyval \<Rightarrow> error + 'av converted"

text \<open>The catalog: a dictionary filled in container order, a later entry replacing an earlier one.\<close>

definition catalog ::
  "provided_attribute list \<Rightarrow> (string \<times> string \<rightharpoonup> provided_attribute)" where
  "catalog atts = foldl (\<lambda>attrs att. attrs((att_format att, att_title att) \<mapsto> att)) Map.empty atts"

definition ran_of :: "'av provider \<Rightarrow> requested_attribute \<Rightarrow> string \<times> string" where
  "ran_of self ra = (py_or (ra_NameFormat ra) (unspecified self), ra_Name ra)"

text \<open>The raw value of a provided attribute for the member.\<close>

definition raw_value ::
  "'av provider \<Rightarrow> string \<Rightarrow> provided_attribute \<Rightarrow> error + pyval" where
  "raw_value self eid d =
     (case evaluator d of
        None \<Rightarrow> Inr (getProperty self (att_id d))
      | Some ev \<Rightarrow> call_evaluator self ev d eid)"

text \<open>Bytes of a string attribute are decoded with the configured character set.\<close>

definition decoded ::
  "'av provider \<Rightarrow> provided_attribute \<Rightarrow> pyval \<Rightarrow> error + pyval" where
  "decoded self d v =
     (case v of
        PyBytes b \<Rightarrow>
          (if att_type d = ''string'' then
             (case decode self b of Inl e \<Rightarrow> Inl e | Inr t \<Rightarrow> Inr (PyText t))
           else Inr v)
      | _ \<Rightarrow> Inr v)"

definition converted_values ::
  "'av provider \<Rightarrow> string \<Rightarrow> provided_attribute \<Rightarrow> error + 'av list" where
  "converted_values self eid d =
     (case raw_value self eid d of
        Inl e \<Rightarrow> Inl e
      | Inr v \<Rightarrow>
         (case decoded self d v of
            Inl e \<Rightarrow> Inl e
          | Inr v' \<Rightarrow>
             (case xs_convert_to_xml self (att_type d) v' of
                Inl e \<Rightarrow> Inl e
              | Inr (Single x) \<Rightarrow> Inr [x]
              | Inr (Multiple xs) \<Rightarrow> Inr xs)))"

text \<open>
  The loop over the requested attributes. It carries the list \<open>av\<close> of the attributes
  built so far and the log; an exception ends it.
\<close>

fun release_loop ::
  "'av provider \<Rightarrow> string \<Rightarrow> (string \<times> string \<rightharpoonup> provided_attribute) \<Rightarrow>
   requested_attribute list \<Rightarrow> 'av attribute list \<Rightarrow> log_record list \<Rightarrow>
   log_record list \<times> (error + 'av attribute list)" where
  "release_loop self eid attrs [] av log = (log, Inr av)"
| "release_loop self eid attrs (ra # ras) av log =
     (case attrs (ran_of self ra) of
        None \<Rightarrow>
          release_loop self eid attrs ras av (log @ [AttributeNotFound (ran_of self ra) eid])
      | Some d \<Rightarrow>
         (case converted_values self eid d of
            Inl e \<Rightarrow> (log, Inl e)
          | Inr xv \<Rightarrow>
              release_loop self eid attrs ras
                (av @ [\<lparr>NameFormat = att_format d, Name = att_title d,
                        FriendlyName = py_or (ra_FriendlyName ra) (att_id d),
                        AttributeValue = xv\<rparr>])
                log))"

text \<open>
  \<open>target_eid\<close> is \<open>target.eid\<close>, \<open>issuer\<close> is \<open>req.Issuer.value()\<close>. The result is the
  log written and either the exception raised or the value returned.
\<close>

definition make_attribute_statement ::
  "'av provider \<Rightarrow> string option \<Rightarrow> string \<Rightarrow> int option \<Rightarrow>
   log_record list \<times> (error + 'av release)" where
  "make_attribute_statement self target_eid issuer ix =
     (let eid = py_or target_eid issuer in
      case get_recent_metadata self eid of
        Inl e \<Rightarrow> ([], Inl e)
      | Inr md \<Rightarrow>
         (case attribute_consuming_service_of md ix of
            None \<Rightarrow>
              (case ix of
                 None \<Rightarrow> ([], Inr Nothing)
               | Some i \<Rightarrow> ([AcsNotLocated i eid], Inr ResourceNotRecognized))
          | Some acs \<Rightarrow>
              (case release_loop self eid (catalog (objectValues self))
                      (RequestedAttribute acs) [] [] of
                 (log, Inl e) \<Rightarrow> (log, Inl e)
               | (log, Inr av) \<Rightarrow>
                   (log, Inr (if av = [] then Nothing else AttributeStatement av)))))"

subsection \<open>The release in the words of the specification\<close>

text \<open>
  The requested attributes that the catalog holds, each with its descriptor, and those
  that it lacks, both in the order of the request.
\<close>

definition found ::
  "'av provider \<Rightarrow> (string \<times> string \<rightharpoonup> provided_attribute) \<Rightarrow> requested_attribute list \<Rightarrow>
   (requested_attribute \<times> provided_attribute) list" where
  "found self attrs ras =
     concat (map (\<lambda>ra. case attrs (ran_of self ra) of None \<Rightarrow> [] | Some d \<Rightarrow> [(ra, d)]) ras)"

definition missed ::
  "'av provider \<Rightarrow> (string \<times> string \<rightharpoonup> provided_attribute) \<Rightarrow> requested_attribute list \<Rightarrow>
   requested_attribute list" where
  "missed self attrs ras = filter (\<lambda>ra. attrs (ran_of self ra) = None) ras"

text \<open>The attribute entry emitted for a requested attribute and its descriptor.\<close>

definition emit ::
  "'av provider \<Rightarrow> string \<Rightarrow> requested_attribute \<times> provided_attribute \<Rightarrow> error + 'av attribute" where
  "emit self eid rd =
     (case converted_values self eid (snd rd) of
        Inl e \<Rightarrow> Inl e
      | Inr xv \<Rightarrow>
          Inr \<lparr>NameFormat = att_format (snd rd), Name = att_title (snd rd),
               FriendlyName = py_or (ra_FriendlyName (fst rd)) (att_id (snd rd)),
               AttributeValue = xv\<rparr>)"

text \<open>
  A requested attribute that lets the release go on: one that the catalog lacks, or one
  whose value is obtained and converted without an exception.
\<close>

definition passes ::
  "'av provider \<Rightarrow> string \<Rightarrow> (string \<times> string \<rightharpoonup> provided_attribute) \<Rightarrow>
   requested_attribute \<Rightarrow> bool" where
  "passes self eid attrs ra =
     (case attrs (ran_of self ra) of
        None \<Rightarrow> True
      | Some d \<Rightarrow> (case converted_values self eid d of Inl e \<Rightarrow> False | Inr xv \<Rightarrow> True))"

section \<open>The authority (authority.py)\<close>

subsection \<open>Roles\<close>

text \<open>
  The roles are the keys of \<open>role2element\<close> (of the \<open>dm.saml2\<close> package); the module
  imports one interface for each: \<open>IIdpssoRole\<close>, \<open>ISpssoRole\<close>, \<open>IApRole\<close>,
  \<open>IAuthnRole\<close> and \<open>IPdpRole\<close>. The dictionary itself is a parameter of the model, an
  association list in iteration order.
\<close>

datatype role = idpsso | spsso | authn | pdp | ap

fun role_name :: "role \<Rightarrow> string" where
  "role_name idpsso = ''idpsso''"
| "role_name spsso = ''spsso''"
| "role_name authn = ''authn''"
| "role_name pdp = ''pdp''"
| "role_name ap = ''ap''"

type_synonym path = "string list"

text \<open>
  \<open>self.roles\<close> is a persistent mapping from roles to paths: an association list in
  insertion order, with a dictionary's assignment and membership test.
\<close>

type_synonym registry = "(role \<times> path) list"

fun dict_set :: "'k \<Rightarrow> 'v \<Rightarrow> ('k \<times> 'v) list \<Rightarrow> ('k \<times> 'v) list" where
  "dict_set k v [] = [(k, v)]"
| "dict_set k v ((k', v') # rest) =
     (if k' = k then (k, v) # rest else (k', v') # dict_set k v rest)"

definition dict_has :: "'k \<Rightarrow> ('k \<times> 'v) list \<Rightarrow> bool" where
  "dict_has k d = (map_of d k \<noteq> None)"

subsection \<open>The keys manager\<close>

type_synonym time = int

text \<open>
  Modelled from the spec: \<open>Volatile\<close> of \<open>util.py\<close>, which is not among the sources. It is
  one slot of the validity cache: it holds a value or nothing, \<open>get\<close> reads it
  (\<open>None\<close> when nothing is held) and \<open>set\<close> replaces it as a whole.
\<close>

datatype 'a volatile = Volatile "'a option"

fun volatile_get :: "'a volatile \<Rightarrow> 'a option" where
  "volatile_get (Volatile v) = v"

fun volatile_set :: "'a \<Rightarrow> 'a volatile \<Rightarrow> 'a volatile" where
  "volatile_set x (Volatile v) = Volatile (Some x)"

text \<open>\<open>eid2volatile_info\<close>: entity id to the slot holding \<open>(validUntil, keys)\<close>.\<close>

type_synonym 'key keys_manager = "string \<rightharpoonup> (time option \<times> 'key list) volatile"

text \<open>A configured password is a byte string or a text string.\<close>

datatype pystring = Bytes string | Text string

fun truthy :: "pystring \<Rightarrow> bool" where
  "truthy (Bytes b) = (b \<noteq> [])"
| "truthy (Text t) = (t \<noteq> [])"

text \<open>
  The metadata handle of a foreign entity (\<open>metadata_by_id(eid)\<close>):
  \<open>get_recent_metadata()\<close> raises or yields a document, of which only \<open>validUntil\<close> is
  read; when it had to fetch, it notifies a modification, and the subscriber
  \<open>signature_context_changed\<close> deletes the entity's slot (\<open>notifies\<close>);
  \<open>get_role_certificates(role, use)\<close> lists the certificates of a role section.
\<close>

record entity_metadata =
  recent_validUntil :: "error + time option"
  notifies :: bool
  get_role_certificates :: "role \<Rightarrow> string \<Rightarrow> string list"

text \<open>
  A role implementor, as the authority uses it: its physical path, the roles whose
  interface it provides, the SP's \<open>wants_assertions_signed\<close>, the formats its
  \<open>INameidFormatSupport\<close> adapter supports (\<open>None\<close> when it cannot be adapted), and the
  attributes its \<open>add_attribute_metadata\<close> appends, as
  \<open>(NameFormat, Name, FriendlyName)\<close>.
\<close>

record implementor =
  getPhysicalPath :: path
  provides :: "role list"
  wants_assertions_signed :: bool
  supported :: "string list option"
  attribute_metadata :: "(string \<times> string \<times> string) list"

text \<open>
  The authority: its configuration, and its collaborators as functions (the XML security
  binding's key loaders, the character set, the metadata repository, the file system,
  object traversal, the URL customizer and \<open>path2url\<close>, and whether the descriptor class
  of an element has a \<open>NameIDFormat\<close> list).
\<close>

record 'key authority =
  entity_id :: string
  base_url :: string
  metadata_validity :: int
  certificate :: "string option"
  future_certificate :: "string option"
  private_key :: "string option"
  private_key_password :: "pystring option"
  clienthome :: string
  encode :: "string \<Rightarrow> error + string"
  Key_load :: "string \<Rightarrow> string \<Rightarrow> error + 'key"
  Key_loadMemory :: "string \<Rightarrow> error + 'key"
  metadata_by_id :: "string \<Rightarrow> error + entity_metadata"
  role2element :: "(role \<times> string) list"
  read_file :: "string \<Rightarrow> error + string"
  unrestrictedTraverse :: "path \<Rightarrow> error + implementor"
  url_customizer :: "(implementor \<Rightarrow> string) option"
  path2url :: "path \<Rightarrow> string"
  has_NameIDFormat :: "string \<Rightarrow> bool"

text \<open>\<open>_make_absolute\<close>, with \<open>os.path.isabs\<close> and \<open>os.path.join\<close> for POSIX paths.\<close>

definition isabs :: "string \<Rightarrow> bool" where
  "isabs fn = (case fn of [] \<Rightarrow> False | c # _ \<Rightarrow> c = CHR ''/'')"

definition join :: "string \<Rightarrow> string \<Rightarrow> string" where
  "join a p =
     (if isabs p then p
      else if a = [] \<or> last a = CHR ''/'' then a @ p
      else a @ ''/'' @ p)"

definition make_absolute :: "string \<Rightarrow> string \<Rightarrow> string" where
  "make_absolute home fn = (if isabs fn then fn else join home fn)"

definition to_bytes :: "'key authority \<Rightarrow> pystring \<Rightarrow> error + string" where
  "to_bytes auth v = (case v of Bytes b \<Rightarrow> Inr b | Text t \<Rightarrow> encode auth t)"

text \<open>
  The password argument of \<open>Key.load\<close>:
  \<open>private_key_password and _to_bytes(private_key_password) or b"fail"\<close>.
\<close>

definition key_password :: "'key authority \<Rightarrow> error + string" where
  "key_password auth =
     (case private_key_password auth of
        None \<Rightarrow> Inr ''fail''
      | Some pw \<Rightarrow>
          (if truthy pw then
             (case to_bytes auth pw of
                Inl e \<Rightarrow> Inl e
              | Inr b \<Rightarrow> Inr (if b \<noteq> [] then b else ''fail''))
           else Inr ''fail''))"

text \<open>The authority's own sign key: a tuple of one key. An unset key file is no path.\<close>

definition own_keys :: "'key authority \<Rightarrow> error + 'key list" where
  "own_keys auth =
     (case private_key auth of
        None \<Rightarrow> Inl (TypeError ''expected str, bytes or os.PathLike object, not NoneType'')
      | Some fn \<Rightarrow>
          (case key_password auth of
             Inl e \<Rightarrow> Inl e
           | Inr pw \<Rightarrow>
               (case Key_load auth (make_absolute (clienthome auth) fn) pw of
                  Inl e \<Rightarrow> Inl e
                | Inr k \<Rightarrow> Inr [k])))"

text \<open>The inner loop over the certificates of one role, with \<open>seen\<close> and \<open>keys\<close>.\<close>

fun collect_certs ::
  "'key authority \<Rightarrow> string list \<Rightarrow> string set \<Rightarrow> 'key list \<Rightarrow>
   error + (string set \<times> 'key list)" where
  "collect_certs auth [] seen keys = Inr (seen, keys)"
| "collect_certs auth (cert # rest) seen keys =
     (if cert \<in> seen then collect_certs auth rest seen keys
      else
        (case Key_loadMemory auth cert of
           Inl e \<Rightarrow> Inl e
         | Inr k \<Rightarrow> collect_certs auth rest (insert cert seen) (keys @ [k])))"

text \<open>The outer loop over the roles.\<close>

fun collect_roles ::
  "'key authority \<Rightarrow> entity_metadata \<Rightarrow> role list \<Rightarrow> string set \<Rightarrow> 'key list \<Rightarrow>
   error + (string set \<times> 'key list)" where
  "collect_roles auth md [] seen keys = Inr (seen, keys)"
| "collect_roles auth md (r # rs) seen keys =
     (case collect_certs auth (get_role_certificates md r ''signing'') seen keys of
        Inl e \<Rightarrow> Inl e
      | Inr (seen', keys') \<Rightarrow> collect_roles auth md rs seen' keys')"

text \<open>
  The keys of a foreign entity, with the cache as the fetch leaves it: the subscriber
  may have deleted the entity's slot.
\<close>

definition foreign_keys ::
  "'key authority \<Rightarrow> 'key keys_manager \<Rightarrow> string \<Rightarrow>
   'key keys_manager \<times> (error + time option \<times> 'key list)" where
  "foreign_keys auth km eid =
     (case metadata_by_id auth eid of
        Inl e \<Rightarrow> (km, Inl e)
      | Inr md \<Rightarrow>
          (case recent_validUntil md of
             Inl e \<Rightarrow> (km, Inl e)
           | Inr validUntil \<Rightarrow>
               (let km' = (if notifies md then km(eid := None) else km) in
                case collect_roles auth md (map fst (role2element auth)) {} [] of
                  Inl e \<Rightarrow> (km', Inl e)
                | Inr (seen, keys) \<Rightarrow> (km', Inr (validUntil, keys)))))"

text \<open>
  \<open>__getitem__\<close> from the comment \<open># determine the keys\<close> on: compute the keys, fetch
  the slot again (or make one), store \<open>(validUntil, keys)\<close> and return the keys.
\<close>

definition determine_keys ::
  "'key authority \<Rightarrow> 'key keys_manager \<Rightarrow> string \<Rightarrow>
   'key keys_manager \<times> (error + 'key list)" where
  "determine_keys auth km eid =
     (case (if entity_id auth = eid then
              (case own_keys auth of
                 Inl e \<Rightarrow> (km, Inl e)
               | Inr keys \<Rightarrow> (km, Inr (None, keys)))
            else foreign_keys auth km eid) of
        (km', Inl e) \<Rightarrow> (km', Inl e)
      | (km', Inr (validUntil, keys)) \<Rightarrow>
          (let volatile = (case km' eid of None \<Rightarrow> Volatile None | Some v \<Rightarrow> v)
           in (km'(eid \<mapsto> volatile_set (validUntil, keys) volatile), Inr keys)))"

text \<open>\<open>__getitem__\<close> at the time \<open>now\<close> that \<open>utcnow()\<close> returns.\<close>

definition getitem ::
  "'key authority \<Rightarrow> time \<Rightarrow> 'key keys_manager \<Rightarrow> string \<Rightarrow>
   'key keys_manager \<times> (error + 'key list)" where
  "getitem auth now km eid =
     (let info = (case km eid of None \<Rightarrow> None | Some volatile \<Rightarrow> volatile_get volatile) in
      case info of
        None \<Rightarrow> determine_keys auth km eid
      | Some (validUntil, keys) \<Rightarrow>
          (case validUntil of
             None \<Rightarrow> (km, Inr keys)
           | Some t \<Rightarrow> if now \<le> t then (km, Inr keys) else determine_keys auth km eid))"

text \<open>\<open>__delitem__\<close>.\<close>

definition delitem :: "'key keys_manager \<Rightarrow> string \<Rightarrow> 'key keys_manager" where
  "delitem km eid = (if km eid \<noteq> None then km(eid := None) else km)"

text \<open>
  The key list in the words of the specification: every certificate once, in the order
  of its first occurrence, each loaded as a verification key; the first failing load is
  the failure of the whole.
\<close>

fun first_seen :: "'a list \<Rightarrow> 'a list" where
  "first_seen [] = []"
| "first_seen (x # xs) = x # first_seen (removeAll x xs)"

definition signing_certificates :: "'key authority \<Rightarrow> entity_metadata \<Rightarrow> string list" where
  "signing_certificates auth md =
     concat (map (\<lambda>r. get_role_certificates md r ''signing'') (map fst (role2element auth)))"

text \<open>
  The cache invariant in the words of the specification: an entry is valid at time \<open>T\<close>
  iff \<open>validUntil\<close> is \<open>None\<close> or \<open>T \<le> validUntil\<close>; and what a slot of the cache holds.
\<close>

definition valid_at :: "time \<Rightarrow> time option \<Rightarrow> bool" where
  "valid_at T validUntil = (case validUntil of None \<Rightarrow> True | Some t \<Rightarrow> T \<le> t)"

definition cached :: "'key keys_manager \<Rightarrow> string \<Rightarrow> (time option \<times> 'key list) option" where
  "cached km eid = (case km eid of None \<Rightarrow> None | Some volatile \<Rightarrow> volatile_get volatile)"

subsection \<open>The role registry\<close>

text \<open>
  The mutable part of the authority: the registry, the keys manager's cache, and the
  entities whose metadata \<open>clear_metadata\<close> has dropped and announced as modified.
\<close>

record 'key authority_state =
  roles :: registry
  keys_manager :: "'key keys_manager"
  cleared :: "string list"

text \<open>\<open>_update\<close>: drop the own metadata (recreated on next use) and the own keys.\<close>

definition update ::
  "'key authority \<Rightarrow> 'key authority_state \<Rightarrow> 'key authority_state \<times> (error + unit)" where
  "update auth st =
     (case metadata_by_id auth (entity_id auth) of
        Inl e \<Rightarrow> (st, Inl e)
      | Inr md \<Rightarrow>
          (st\<lparr>cleared := cleared st @ [entity_id auth],
              keys_manager := delitem (keys_manager st) (entity_id auth)\<rparr>, Inr ()))"

text \<open>
  The loop of \<open>register_role_implementor\<close>. It assigns into the registry as it goes, so
  the registry is returned next to the exception, if any.
\<close>

fun register_roles ::
  "role list \<Rightarrow> implementor \<Rightarrow> registry \<Rightarrow> registry \<times> error option" where
  "register_roles [] implementor reg = (reg, None)"
| "register_roles (role # rest) implementor reg =
     (if role \<in> set (provides implementor) then
        (if dict_has role reg then
           (reg, Some (ValueError (''Role '' @ role_name role @ '' already registered'')))
         else register_roles rest implementor (dict_set role (getPhysicalPath implementor) reg))
      else register_roles rest implementor reg)"

definition register_role_implementor ::
  "'key authority \<Rightarrow> implementor \<Rightarrow> 'key authority_state \<Rightarrow>
   'key authority_state \<times> (error + unit)" where
  "register_role_implementor auth implementor st =
     (case register_roles (map fst (role2element auth)) implementor (roles st) of
        (reg, Some e) \<Rightarrow> (st\<lparr>roles := reg\<rparr>, Inl e)
      | (reg, None) \<Rightarrow> update auth (st\<lparr>roles := reg\<rparr>))"


subsection \<open>Export of the own metadata\<close>

datatype binding = SoapBinding | HttpRedirectBinding | HttpPostBinding

record endpoint =
  Binding :: binding
  Location :: string
  endpoint_index :: "int option"
  endpoint_isDefault :: "bool option"

record role_descriptor =
  element :: string
  KeyDescriptor :: "string list"
  NameIDFormat :: "string list"
  SingleSignOnService :: "endpoint list"
  AssertionConsumerService :: "endpoint list"
  WantsAssertionsSigned :: bool
  Attribute :: "(string \<times> string \<times> string) list"

text \<open>
  The document. An entity descriptor has one list of role descriptors for each kind of
  element, and a new descriptor is appended to the list named after its class (the
  class of the element \<open>X\<close> is \<open>XType\<close>, and \<open>__name__[:-4]\<close> is \<open>X\<close> again). So
  \<open>role_descriptors\<close> gives, for an element name, the descriptors of that kind in the
  order in which they were added; no order between the kinds is modelled. The
  serialisation \<open>toxml\<close> belongs to the XML layer.
\<close>

record entity_descriptor =
  entityID :: string
  validUntil :: time
  role_descriptors :: "string \<Rightarrow> role_descriptor list"

definition new_descriptor :: "string \<Rightarrow> role_descriptor" where
  "new_descriptor el =
     \<lparr>element = el, KeyDescriptor = [], NameIDFormat = [], SingleSignOnService = [],
      AssertionConsumerService = [], WantsAssertionsSigned = False, Attribute = []\<rparr>"

definition get_url :: "'key authority \<Rightarrow> implementor \<Rightarrow> string" where
  "get_url auth obj =
     (case url_customizer auth of
        Some url \<Rightarrow> url obj
      | None \<Rightarrow> base_url auth @ ''/'' @ path2url auth (drop 1 (getPhysicalPath obj)))"

definition gen_metadata_sso :: "'key authority \<Rightarrow> implementor \<Rightarrow> role_descriptor \<Rightarrow> role_descriptor" where
  "gen_metadata_sso auth implementor rd = rd"

definition add_attribute_metadata :: "implementor \<Rightarrow> role_descriptor \<Rightarrow> role_descriptor" where
  "add_attribute_metadata implementor rd =
     rd\<lparr>Attribute := Attribute rd @ attribute_metadata implementor\<rparr>"

definition gen_metadata_idpsso :: "'key authority \<Rightarrow> implementor \<Rightarrow> role_descriptor \<Rightarrow> role_descriptor" where
  "gen_metadata_idpsso auth implementor rd =
     (let rd1 = gen_metadata_sso auth implementor rd;
          rd2 = rd1\<lparr>SingleSignOnService := SingleSignOnService rd1 @
                  [\<lparr>Binding = HttpRedirectBinding,
                    Location = get_url auth implementor @ ''/redirect'',
                    endpoint_index = None, endpoint_isDefault = None\<rparr>,
                   \<lparr>Binding = HttpPostBinding,
                    Location = get_url auth implementor @ ''/post'',
                    endpoint_index = None, endpoint_isDefault = None\<rparr>]\<rparr>
      in if ap \<in> set (provides implementor) then add_attribute_metadata implementor rd2 else rd2)"

definition gen_metadata_spsso :: "'key authority \<Rightarrow> implementor \<Rightarrow> role_descriptor \<Rightarrow> role_descriptor" where
  "gen_metadata_spsso auth implementor rd =
     (let rd1 = gen_metadata_sso auth implementor rd;
          rd2 = (if wants_assertions_signed implementor
                 then rd1\<lparr>WantsAssertionsSigned := True\<rparr> else rd1);
          rd3 = rd2\<lparr>AssertionConsumerService := AssertionConsumerService rd2 @
                  [\<lparr>Binding = HttpPostBinding,
                    Location = get_url auth implementor @ ''/post'',
                    endpoint_index = Some 1, endpoint_isDefault = Some True\<rparr>]\<rparr>
      in add_attribute_metadata implementor rd3)"

text \<open>
  The exception of an attribute lookup that fails, with Python's message:
  \<open>'C' object has no attribute 'a'\<close>. The authority's class is \<open>SamlAuthority\<close>.
\<close>

definition quoted :: "string \<Rightarrow> string" where
  "quoted s = [CHR 0x27] @ s @ [CHR 0x27]"

definition no_attribute :: "string \<Rightarrow> error" where
  "no_attribute name =
     AttributeError (quoted ''SamlAuthority'' @ '' object has no attribute '' @ quoted name)"

text \<open>
  \<open>getattr(self, "gen_metadata_" + r)\<close>: the class has a generator for \<open>idpsso\<close> and for
  \<open>spsso\<close> only.
\<close>

definition gen_metadata ::
  "'key authority \<Rightarrow> role \<Rightarrow> implementor \<Rightarrow> role_descriptor \<Rightarrow> error + role_descriptor" where
  "gen_metadata auth r implementor rd =
     (case r of
        idpsso \<Rightarrow> Inr (gen_metadata_idpsso auth implementor rd)
      | spsso \<Rightarrow> Inr (gen_metadata_spsso auth implementor rd)
      | _ \<Rightarrow> Inl (no_attribute (''gen_metadata_'' @ role_name r)))"

text \<open>The loop over the current and the future certificate.\<close>

fun add_key_descriptors ::
  "'key authority \<Rightarrow> string option list \<Rightarrow> role_descriptor \<Rightarrow> error + role_descriptor" where
  "add_key_descriptors auth [] rd = Inr rd"
| "add_key_descriptors auth (c # cs) rd =
     (case c of
        None \<Rightarrow> add_key_descriptors auth cs rd
      | Some fn \<Rightarrow>
          (if fn = [] then add_key_descriptors auth cs rd
           else
             (case read_file auth (make_absolute (clienthome auth) fn) of
                Inl e \<Rightarrow> Inl e
              | Inr cert \<Rightarrow>
                  add_key_descriptors auth cs (rd\<lparr>KeyDescriptor := KeyDescriptor rd @ [cert]\<rparr>))))"

definition set_NameIDFormat ::
  "'key authority \<Rightarrow> implementor \<Rightarrow> role_descriptor \<Rightarrow> error + role_descriptor" where
  "set_NameIDFormat auth i rd =
     (if has_NameIDFormat auth (element rd) then
        (case supported i of
           None \<Rightarrow> Inl (TypeError ''Could not adapt'')
         | Some formats \<Rightarrow> Inr (rd\<lparr>NameIDFormat := formats\<rparr>))
      else Inr rd)"

text \<open>
  The body of the loop for a role other than \<open>ap\<close>. The source appends the new
  descriptor to the document first and fills it in place; an exception discards the
  document, so the model appends the finished descriptor.
\<close>

definition export_role :: "'key authority \<Rightarrow> role \<Rightarrow> path \<Rightarrow> error + role_descriptor" where
  "export_role auth r p =
     (case unrestrictedTraverse auth p of
        Inl e \<Rightarrow> Inl e
      | Inr i \<Rightarrow>
          (case map_of (role2element auth) r of
             None \<Rightarrow> Inl (KeyError (role_name r))
           | Some el \<Rightarrow>
               (case add_key_descriptors auth [certificate auth, future_certificate auth]
                       (new_descriptor el) of
                  Inl e \<Rightarrow> Inl e
                | Inr rd1 \<Rightarrow>
                    (case set_NameIDFormat auth i rd1 of
                       Inl e \<Rightarrow> Inl e
                     | Inr rd2 \<Rightarrow> gen_metadata auth r i rd2))))"

text \<open>
  The loop over the registry, with the document's lists \<open>rds\<close> and the counter \<open>rno\<close>.
\<close>

fun export_roles ::
  "'key authority \<Rightarrow> registry \<Rightarrow> (string \<Rightarrow> role_descriptor list) \<Rightarrow> nat \<Rightarrow>
   error + ((string \<Rightarrow> role_descriptor list) \<times> nat)" where
  "export_roles auth [] rds rno = Inr (rds, rno)"
| "export_roles auth ((r, p) # rest) rds rno =
     (if r = ap then export_roles auth rest rds rno
      else
        (case export_role auth r p of
           Inl e \<Rightarrow> Inl e
         | Inr rd \<Rightarrow>
             export_roles auth rest (rds(element rd := rds (element rd) @ [rd])) (rno + 1)))"

definition no_roles :: error where
  "no_roles = ValueError
     ''The authority does not have associated roles; its metadata would violate the saml2 metadata schema''"

definition export_own_metadata ::
  "'key authority \<Rightarrow> time \<Rightarrow> registry \<Rightarrow> error + entity_descriptor" where
  "export_own_metadata auth now reg =
     (case export_roles auth reg (\<lambda>el. []) 0 of
        Inl e \<Rightarrow> Inl e
      | Inr (rds, rno) \<Rightarrow>
          (if rno = 0 then Inl no_roles
           else Inr \<lparr>entityID = entity_id auth,
                     validUntil = now + metadata_validity auth,
                     role_descriptors = rds\<rparr>))"

text \<open>
  The kinds of element that \<open>role2element\<close> names, each once, and the number of role
  descriptors that a document holds in the lists of these kinds.
\<close>

definition element_kinds :: "'key authority \<Rightarrow> string list" where
  "element_kinds auth = remdups (map snd (role2element auth))"

definition descriptor_count :: "'key authority \<Rightarrow> entity_descriptor \<Rightarrow> nat" where
  "descriptor_count auth ed =
     sum_list (map (\<lambda>el. length (role_descriptors ed el)) (element_kinds auth))"

text \<open>
  What the export needs from its collaborators for one registered role: the implementor
  is found, the role has an element, the configured certificate files can be read, and
  the implementor adapts to name-id format support when the descriptor lists formats.
\<close>

definition readable :: "'key authority \<Rightarrow> string option \<Rightarrow> bool" where
  "readable auth c =
     (case c of
        None \<Rightarrow> True
      | Some fn \<Rightarrow>
          fn = [] \<or>
          (case read_file auth (make_absolute (clienthome auth) fn) of
             Inl e \<Rightarrow> False | Inr cert \<Rightarrow> True))"

definition collaborators_ok :: "'key authority \<Rightarrow> role \<Rightarrow> path \<Rightarrow> bool" where
  "collaborators_ok auth r p =
     (case unrestrictedTraverse auth p of
        Inl e \<Rightarrow> False
      | Inr i \<Rightarrow>
          (case map_of (role2element auth) r of
             None \<Rightarrow> False
           | Some el \<Rightarrow>
               readable auth (certificate auth) \<and> readable auth (future_certificate auth) \<and>
               (has_NameIDFormat auth el \<longrightarrow> supported i \<noteq> None)))"

subsection \<open>The handler of the authority's own moves\<close>

text \<open>
  \<open>move_handler(o, e)\<close> is subscribed to the add, move and delete events of the
  authority \<open>o\<close>. \<open>site\<close> is the active site's manager, if there is a site, with
  whether it is persistent (has \<open>_p_jar\<close>); a parent that is present counts as true.
  The handler changes whether \<open>o\<close> is registered as the authority utility and whether
  \<open>o\<close> holds its own entity. \<open>add_entity\<close> of the metadata repository raises for an
  entity that it manages already; \<open>managed\<close> is that exception, raised after the utility
  has been registered. The refusal's second argument, the implementors' paths taken
  from a set, is left out of the exception.
\<close>

record 'p move_event =
  oldParent :: "'p option"
  newParent :: "'p option"

record handled =
  utility_registered :: bool
  own_entity_added :: bool

definition move_handler ::
  "bool option \<Rightarrow> registry \<Rightarrow> 'p move_event \<Rightarrow> error \<Rightarrow> handled \<Rightarrow>
   handled \<times> (error + unit)" where
  "move_handler site o_roles e managed h =
     (case site of
        None \<Rightarrow>
          (if newParent e = None then (h, Inr ())
           else (h, Inl (ValueError ''need a persistent active site'')))
      | Some persistent \<Rightarrow>
          (if oldParent e \<noteq> None \<and> o_roles \<noteq> [] \<and> newParent e = None then
             (h, Inl (ValueError ''must first delete role implementers''))
           else
             (let h1 = (if oldParent e \<noteq> None then h\<lparr>utility_registered := False\<rparr> else h) in
              if newParent e \<noteq> None then
                (if \<not> persistent then (h1, Inl (ValueError ''need a persistent active site''))
                 else
                   (let h2 = h1\<lparr>utility_registered := True\<rparr> in
                    if oldParent e = None then
                      (if own_entity_added h2 then (h2, Inl managed)
                       else (h2\<lparr>own_entity_added := True\<rparr>, Inr ()))
                    else (h2, Inr ())))
              else (h1, Inr ()))))"

subsection \<open>The delete guard of a role implementor\<close>



section \<open>Example configurations\<close>

text \<open>
  The services of the specification's selector example, a service provider's metadata
  around them, and a provider whose catalog holds the one attribute \<open>mail\<close>.
\<close>

definition example_services :: "attribute_consuming_service list" where
  "example_services =
     [\<lparr>index = 0, isDefault = None, RequestedAttribute = []\<rparr>,
      \<lparr>index = 1, isDefault = Some False, RequestedAttribute = []\<rparr>,
      \<lparr>index = 2, isDefault = Some True, RequestedAttribute = []\<rparr>]"

definition metadata_of :: "attribute_consuming_service list \<Rightarrow> metadata" where
  "metadata_of acss = \<lparr>SPSSODescriptor = [\<lparr>AttributeConsumingService = acss\<rparr>]\<rparr>"

definition uri_format :: string where
  "uri_format = ''urn:oasis:names:tc:SAML:2.0:attrname-format:uri''"

definition requested_mail :: requested_attribute where
  "requested_mail = \<lparr>ra_NameFormat = Some uri_format, ra_Name = ''mail'', ra_FriendlyName = None\<rparr>"

definition requested_phone :: requested_attribute where
  "requested_phone = \<lparr>ra_NameFormat = None, ra_Name = ''phone'', ra_FriendlyName = None\<rparr>"

definition example_sp :: metadata where
  "example_sp = metadata_of
     [\<lparr>index = 0, isDefault = Some True, RequestedAttribute = [requested_phone, requested_mail]\<rparr>,
      \<lparr>index = 1, isDefault = None, RequestedAttribute = [requested_phone]\<rparr>]"

definition example_provider :: "string provider" where
  "example_provider =
     \<lparr>get_recent_metadata = (\<lambda>eid. Inr example_sp),
      objectValues =
        [\<lparr>att_id = ''mail'', att_format = uri_format, att_title = ''mail'',
          att_type = ''string'', evaluator = None\<rparr>],
      unspecified = ''urn:oasis:names:tc:SAML:2.0:attrname-format:unspecified'',
      getProperty = (\<lambda>name. if name = ''mail'' then PyText ''a@example.org'' else PyNone),
      call_evaluator = (\<lambda>ev d eid. Inl (Failure ''no such evaluator'')),
      decode = (\<lambda>b. Inr b),
      xs_convert_to_xml =
        (\<lambda>ty v. case v of PyText t \<Rightarrow> Inr (Single t) | _ \<Rightarrow> Inl (Failure ''not a string''))\<rparr>"

text \<open>
  A provider with \<open>mail\<close> and \<open>cn\<close> in its catalog, and a service provider whose one
  service requests \<open>mail\<close>, \<open>phone\<close> and \<open>cn\<close>, in this order.
\<close>

definition requested_cn :: requested_attribute where
  "requested_cn = \<lparr>ra_NameFormat = Some uri_format, ra_Name = ''cn'', ra_FriendlyName = Some ''name''\<rparr>"

definition example_sp_three :: metadata where
  "example_sp_three = metadata_of
     [\<lparr>index = 0, isDefault = None,
       RequestedAttribute = [requested_mail, requested_phone, requested_cn]\<rparr>]"

definition example_provider_three :: "string provider" where
  "example_provider_three =
     example_provider
       \<lparr>get_recent_metadata := (\<lambda>eid. Inr example_sp_three),
        objectValues :=
          [\<lparr>att_id = ''mail'', att_format = uri_format, att_title = ''mail'',
            att_type = ''string'', evaluator = None\<rparr>,
           \<lparr>att_id = ''fullname'', att_format = uri_format, att_title = ''cn'',
            att_type = ''string'', evaluator = None\<rparr>],
        getProperty :=
          (\<lambda>name. if name = ''mail'' then PyText ''a@example.org''
                   else if name = ''fullname'' then PyBytes ''Alice'' else PyNone)\<rparr>"

text \<open>
  An authority with the five roles in the order of \<open>role2element\<close>, a peer whose
  metadata is valid until time 100 and lists certificates for two roles, and
  implementors found at every path.
\<close>

definition example_roles :: "(role \<times> string) list" where
  "example_roles =
     [(idpsso, ''IDPSSODescriptor''), (spsso, ''SPSSODescriptor''),
      (authn, ''AuthnAuthorityDescriptor''), (pdp, ''PDPDescriptor''),
      (ap, ''AttributeAuthorityDescriptor'')]"

definition example_peer :: entity_metadata where
  "example_peer =
     \<lparr>recent_validUntil = Inr (Some 100),
      notifies = True,
      get_role_certificates =
        (\<lambda>r use. if use = ''signing'' then
                    (if r = idpsso then [''c1'', ''c2'', ''c1'']
                     else if r = spsso then [''c2'', ''c3''] else [])
                  else [''c4''])\<rparr>"

definition implementor_at :: "path \<Rightarrow> implementor" where
  "implementor_at p =
     \<lparr>getPhysicalPath = p, provides = [idpsso, ap], wants_assertions_signed = True,
      supported = Some [''urn:oasis:names:tc:SAML:1.1:nameid-format:unspecified''],
      attribute_metadata = []\<rparr>"

definition example_authority :: "string authority" where
  "example_authority =
     \<lparr>entity_id = ''https://idp.example.org'',
      base_url = ''https://idp.example.org'',
      metadata_validity = 3600,
      certificate = Some ''cert.der'',
      future_certificate = None,
      private_key = Some ''key.pem'',
      private_key_password = None,
      clienthome = ''/var'',
      encode = (\<lambda>t. Inr t),
      Key_load = (\<lambda>fn pw. Inr (fn @ '':'' @ pw)),
      Key_loadMemory = (\<lambda>cert. Inr (''key of '' @ cert)),
      metadata_by_id = (\<lambda>eid. Inr example_peer),
      role2element = example_roles,
      read_file = (\<lambda>fn. Inr ''DER''),
      unrestrictedTraverse = (\<lambda>p. Inr (implementor_at p)),
      url_customizer = None,
      path2url = (\<lambda>p. concat (map (\<lambda>s. s @ ''/'') p)),
      has_NameIDFormat = (\<lambda>el. True)\<rparr>"

definition example_state :: "registry \<Rightarrow> string authority_state" where
  "example_state reg = \<lparr>roles = reg, keys_manager = Map.empty, cleared = []\<rparr>"


section \<open>Lemmas on quoting\<close>

lemma unhex_hexdigit: "n < 16 \<Longrightarrow> unhex (hexdigit n) = Some n"
proof -
  have "\<forall>k \<in> set [0..<16]. unhex (hexdigit k) = Some k"
    by code_simp
  moreover assume "n < 16"
  ultimately show ?thesis by simp
qed

lemma hexdigit_not_special: "n < 16 \<Longrightarrow> hexdigit n \<noteq> CHR ''$'' \<and> hexdigit n \<noteq> CHR ''%''"
proof -
  have "\<forall>k \<in> set [0..<16]. hexdigit k \<noteq> CHR ''$'' \<and> hexdigit k \<noteq> CHR ''%''"
    by code_simp
  moreover assume "n < 16"
  ultimately show ?thesis by simp
qed

lemma of_char_div16: "(of_char c :: nat) div 16 < 16"
proof -
  have "(of_char c :: nat) mod 256 < 256" by (rule mod_less_divisor) simp
  then have "(of_char c :: nat) < 256" by simp
  then show ?thesis by arith
qed

lemma safe_not_special: "c \<in> set always_safe \<Longrightarrow> c \<noteq> CHR ''$'' \<and> c \<noteq> CHR ''%''"
  by (auto simp: always_safe_def)

lemma unquote_quote_byte:
  "urllib_unquote (replace (CHR ''$'') (CHR ''%'') (replace (CHR ''%'') (CHR ''$'') (quote_byte [] c)) @ rest)
   = c # urllib_unquote rest"
proof (cases "c \<in> set always_safe")
  case True
  then show ?thesis using safe_not_special[OF True]
    by (simp add: quote_byte_def replace_def)
next
  case False
  let ?a = "(of_char c :: nat) div 16" and ?b = "(of_char c :: nat) mod 16"
  have a: "?a < 16" by (rule of_char_div16)
  have b: "?b < 16" by simp
  have ab: "16 * ?a + ?b = of_char c" by simp
  show ?thesis using False hexdigit_not_special[OF a] hexdigit_not_special[OF b]
      unhex_hexdigit[OF a] unhex_hexdigit[OF b]
    by (simp add: quote_byte_def replace_def ab)
qed

lemma unquote_quote_append:
  "urllib_unquote (replace (CHR ''$'') (CHR ''%'') (replace (CHR ''%'') (CHR ''$'') (urllib_quote s [])) @ rest)
   = s @ urllib_unquote rest"
proof (induction s)
  case Nil
  show ?case by (simp add: urllib_quote_def replace_def)
next
  case (Cons c s)
  have "urllib_quote (c # s) [] = quote_byte [] c @ urllib_quote s []"
    by (simp add: urllib_quote_def)
  then show ?case using Cons unquote_quote_byte
    by (simp add: replace_def)
qed

section \<open>Lemmas on the selector and the release\<close>

lemma find_requested_default:
  "find_requested None acss = find (\<lambda>a. isDefault a = Some True) acss"
  by (induction acss) simp_all

lemma find_without_isDefault_find:
  "find_without_isDefault acss = find (\<lambda>a. isDefault a = None) acss"
  by (induction acss) simp_all

lemma acs_of_sp_default:
  "acs_of_sp None sp = select_default (AttributeConsumingService sp)"
  by (simp add: acs_of_sp_def select_default_def find_requested_default
      find_without_isDefault_find split: option.splits list.splits)

lemma select_default_Nil: "select_default [] = None"
  by (simp add: select_default_def)

lemma acs_of_sps_default:
  "acs_of_sps None sps =
     select_default (case filter (\<lambda>sp. AttributeConsumingService sp \<noteq> []) sps of
        [] \<Rightarrow> [] | sp # _ \<Rightarrow> AttributeConsumingService sp)"
proof (induction sps)
  case Nil
  show ?case by (simp add: select_default_Nil)
next
  case (Cons sp sps)
  show ?case
  proof (cases "AttributeConsumingService sp = []")
    case True
    then show ?thesis using Cons
      by (simp add: acs_of_sp_default select_default_Nil)
  next
    case False
    then have "select_default (AttributeConsumingService sp) \<noteq> None"
      by (auto simp: select_default_def split: option.splits list.splits)
    then show ?thesis using False
      by (auto simp: acs_of_sp_default)
  qed
qed

lemma find_requested_no_index:
  "\<forall>acs \<in> set acss. index acs \<noteq> i \<Longrightarrow> find_requested (Some i) acss = None"
  by (induction acss) simp_all

lemma acs_of_sp_no_index:
  "\<forall>acs \<in> set (AttributeConsumingService sp). index acs \<noteq> i \<Longrightarrow> acs_of_sp (Some i) sp = None"
  by (simp add: acs_of_sp_def find_requested_no_index split: list.splits)

lemma acs_of_sps_no_index:
  "\<forall>sp \<in> set sps. \<forall>acs \<in> set (AttributeConsumingService sp). index acs \<noteq> i \<Longrightarrow>
   acs_of_sps (Some i) sps = None"
  by (induction sps) (simp_all add: acs_of_sp_no_index)

lemma release_loop_log:
  "snd (release_loop self eid attrs ras av log) = snd (release_loop self eid attrs ras av log')"
proof (induction ras arbitrary: av log log')
  case Nil
  show ?case by simp
next
  case (Cons ra ras)
  show ?case
  proof (cases "attrs (ran_of self ra)")
    case None
    then show ?thesis using Cons [of av "log @ [AttributeNotFound (ran_of self ra) eid]"
          "log' @ [AttributeNotFound (ran_of self ra) eid]"]
      by simp
  next
    case (Some d)
    then show ?thesis using Cons by (simp split: sum.splits)
  qed
qed

lemma release_loop_filter:
  "snd (release_loop self eid attrs ras av log) =
   snd (release_loop self eid attrs (filter (\<lambda>ra. attrs (ran_of self ra) \<noteq> None) ras) av log)"
proof (induction ras arbitrary: av log)
  case Nil
  show ?case by simp
next
  case (Cons ra ras)
  show ?case
  proof (cases "attrs (ran_of self ra)")
    case None
    have "snd (release_loop self eid attrs (ra # ras) av log) =
          snd (release_loop self eid attrs ras av (log @ [AttributeNotFound (ran_of self ra) eid]))"
      using None by simp
    also have "\<dots> = snd (release_loop self eid attrs ras av log)"
      by (rule release_loop_log)
    also have "\<dots> = snd (release_loop self eid attrs
                 (filter (\<lambda>ra. attrs (ran_of self ra) \<noteq> None) ras) av log)"
      by (rule Cons)
    finally show ?thesis using None by simp
  next
    case (Some d)
    then show ?thesis using Cons by (simp split: sum.splits)
  qed
qed

lemma release_loop_all_miss:
  "\<forall>ra \<in> set ras. attrs (ran_of self ra) = None \<Longrightarrow>
   release_loop self eid attrs ras av log =
     (log @ map (\<lambda>ra. AttributeNotFound (ran_of self ra) eid) ras, Inr av)"
  by (induction ras arbitrary: log) simp_all

lemma make_attribute_statement_not_empty:
  "snd (make_attribute_statement self t iss ix) \<noteq> Inr (AttributeStatement [])"
  by (simp add: make_attribute_statement_def Let_def split: sum.splits option.splits prod.splits)

lemma release_loop_spec:
  "release_loop self eid attrs ras av log =
     (log @ map (\<lambda>ra. AttributeNotFound (ran_of self ra) eid)
              (missed self attrs (takeWhile (passes self eid attrs) ras)),
      case load_all (emit self eid) (found self attrs ras) of
        Inl e \<Rightarrow> Inl e
      | Inr atts \<Rightarrow> Inr (av @ atts))"
proof (induction ras arbitrary: av log)
  case Nil
  show ?case by (simp add: found_def missed_def)
next
  case (Cons ra ras)
  show ?case
  proof (cases "attrs (ran_of self ra)")
    case None
    then show ?thesis
      by (simp add: Cons found_def missed_def passes_def)
  next
    case (Some d)
    show ?thesis
    proof (cases "converted_values self eid d")
      case (Inl e)
      then show ?thesis using Some
        by (simp add: found_def missed_def passes_def emit_def)
    next
      case (Inr xv)
      then show ?thesis using Some
        by (simp add: Cons found_def missed_def passes_def emit_def split: sum.splits)
    qed
  qed
qed

lemma make_attribute_statement_spec:
  "get_recent_metadata self (py_or target_eid issuer) = Inr md \<Longrightarrow>
   attribute_consuming_service_of md ix = Some acs \<Longrightarrow>
   make_attribute_statement self target_eid issuer ix =
     (map (\<lambda>ra. AttributeNotFound (ran_of self ra) (py_or target_eid issuer))
        (missed self (catalog (objectValues self))
           (takeWhile (passes self (py_or target_eid issuer) (catalog (objectValues self)))
              (RequestedAttribute acs))),
      case load_all (emit self (py_or target_eid issuer))
             (found self (catalog (objectValues self)) (RequestedAttribute acs)) of
        Inl e \<Rightarrow> Inl e
      | Inr atts \<Rightarrow> Inr (if atts = [] then Nothing else AttributeStatement atts))"
  by (simp add: make_attribute_statement_def Let_def release_loop_spec split: sum.splits)


section \<open>Lemmas on the keys manager\<close>

lemma first_seen_set: "set (first_seen xs) = set xs"
  by (induction xs rule: first_seen.induct) auto

lemma first_seen_distinct: "distinct (first_seen xs)"
  by (induction xs rule: first_seen.induct) (auto simp: first_seen_set)

lemma first_seen_append:
  "first_seen (xs @ ys) = first_seen xs @ first_seen (filter (\<lambda>y. y \<notin> set xs) ys)"
proof (induction xs arbitrary: ys rule: first_seen.induct)
  case 1
  show ?case by simp
next
  case (2 x xs)
  have "filter (\<lambda>y. y \<notin> set (removeAll x xs)) (removeAll x ys) =
        filter (\<lambda>y. y \<notin> set (x # xs)) ys"
    by (induction ys) auto
  then show ?case using 2 [of "removeAll x ys"] by simp
qed

lemma load_all_append:
  "load_all f (xs @ ys) =
     (case load_all f xs of
        Inl e \<Rightarrow> Inl e
      | Inr as \<Rightarrow> (case load_all f ys of Inl e \<Rightarrow> Inl e | Inr bs \<Rightarrow> Inr (as @ bs)))"
  by (induction xs) (simp_all split: sum.splits)

lemma collect_certs_first_seen:
  "collect_certs auth certs seen keys =
     (case load_all (Key_loadMemory auth) (first_seen (filter (\<lambda>c. c \<notin> seen) certs)) of
        Inl e \<Rightarrow> Inl e
      | Inr ks \<Rightarrow> Inr (seen \<union> set certs, keys @ ks))"
proof (induction certs arbitrary: seen keys)
  case Nil
  show ?case by simp
next
  case (Cons cert rest)
  show ?case
  proof (cases "cert \<in> seen")
    case True
    then show ?thesis using Cons [of seen keys]
      by (auto split: sum.splits)
  next
    case False
    have "removeAll cert (filter (\<lambda>c. c \<notin> seen) rest) =
          filter (\<lambda>c. c \<notin> insert cert seen) rest"
      by (induction rest) auto
    then show ?thesis using False Cons
      by (auto split: sum.splits)
  qed
qed

lemma volatile_set_eq: "volatile_set x v = Volatile (Some x)"
  by (cases v) simp

lemma filter_unseen:
  "filter (\<lambda>y. y \<notin> set (filter (\<lambda>c. c \<notin> seen) cs)) (filter (\<lambda>c. c \<notin> seen) zs) =
   filter (\<lambda>c. c \<notin> seen \<union> set cs) zs"
  by (induction zs) auto

lemma collect_roles_first_seen:
  "collect_roles auth md rs seen keys =
     (case load_all (Key_loadMemory auth)
             (first_seen (filter (\<lambda>c. c \<notin> seen)
                (concat (map (\<lambda>r. get_role_certificates md r ''signing'') rs)))) of
        Inl e \<Rightarrow> Inl e
      | Inr ks \<Rightarrow>
          Inr (seen \<union> set (concat (map (\<lambda>r. get_role_certificates md r ''signing'') rs)),
               keys @ ks))"
proof (induction rs arbitrary: seen keys)
  case Nil
  show ?case by simp
next
  case (Cons r rs)
  let ?cs = "get_role_certificates md r ''signing''"
  let ?rest = "concat (map (\<lambda>r. get_role_certificates md r ''signing'') rs)"
  have eq: "first_seen (filter (\<lambda>c. c \<notin> seen) ?cs @ filter (\<lambda>c. c \<notin> seen) ?rest) =
            first_seen (filter (\<lambda>c. c \<notin> seen) ?cs) @
            first_seen (filter (\<lambda>c. c \<notin> seen \<union> set ?cs) ?rest)"
    by (simp only: first_seen_append filter_unseen)
  show ?case
    by (simp add: collect_certs_first_seen Cons eq load_all_append Un_assoc split: sum.splits)
qed

lemma determine_keys_foreign:
  assumes "entity_id auth \<noteq> eid" "metadata_by_id auth eid = Inr md" "recent_validUntil md = Inr vu"
  shows "snd (determine_keys auth km eid) =
           load_all (Key_loadMemory auth) (first_seen (signing_certificates auth md))"
    and "load_all (Key_loadMemory auth) (first_seen (signing_certificates auth md)) = Inr keys \<Longrightarrow>
           fst (determine_keys auth km eid) eid = Some (Volatile (Some (vu, keys)))"
  using assms
  by (auto simp: determine_keys_def foreign_keys_def collect_roles_first_seen
      signing_certificates_def Let_def volatile_set_eq split: sum.splits option.splits)

lemma determine_keys_cache_free:
  "snd (determine_keys auth km eid) = snd (determine_keys auth km' eid)"
  by (auto simp: determine_keys_def foreign_keys_def Let_def split: sum.splits option.splits prod.splits)

lemma getitem_valid:
  "cached km eid = Some (vu, ks) \<Longrightarrow> valid_at now vu \<Longrightarrow> getitem auth now km eid = (km, Inr ks)"
  by (auto simp: cached_def valid_at_def getitem_def split: option.splits)

lemma getitem_invalid:
  "cached km eid = None \<or> (\<exists>vu ks. cached km eid = Some (vu, ks) \<and> \<not> valid_at now vu) \<Longrightarrow>
   getitem auth now km eid = determine_keys auth km eid"
  by (auto simp: cached_def valid_at_def getitem_def split: option.splits)

lemma cached_delitem: "cached (delitem km eid) eid = None"
  by (auto simp: cached_def delitem_def split: option.splits)

lemma own_entry:
  assumes "entity_id auth = eid" "own_keys auth = Inr ks"
  shows "determine_keys auth km eid = (km(eid \<mapsto> Volatile (Some (None, ks))), Inr ks)"
  using assms by (simp add: determine_keys_def Let_def volatile_set_eq)

lemma own_keys_sentinel:
  "private_key_password auth = None \<Longrightarrow> private_key auth = Some fn \<Longrightarrow>
   own_keys auth = (case Key_load auth (make_absolute (clienthome auth) fn) ''fail'' of
      Inl e \<Rightarrow> Inl e | Inr k \<Rightarrow> Inr [k])"
  by (simp add: own_keys_def key_password_def)

lemma first_seen_remdups: "first_seen xs = rev (remdups (rev xs))"
proof (induction xs rule: first_seen.induct)
  case 1
  show ?case by simp
next
  case (2 x xs)
  have last: "\<And>ys. remdups (ys @ [x]) = removeAll x (remdups ys) @ [x]"
  proof -
    fix ys show "remdups (ys @ [x]) = removeAll x (remdups ys) @ [x]"
      by (induction ys) auto
  qed
  have "rev (remdups (rev (x # xs))) = x # rev (removeAll x (remdups (rev xs)))"
    by (simp add: last rev_filter removeAll_filter_not_eq)
  also have "removeAll x (remdups (rev xs)) = remdups (rev (removeAll x xs))"
    by (simp add: removeAll_filter_not_eq remdups_filter rev_filter)
  finally show ?case using 2 by simp
qed


section \<open>Lemmas on the registry and the export\<close>

lemma dict_set_new: "\<not> dict_has k d \<Longrightarrow> dict_set k v d = d @ [(k, v)]"
  by (induction d) (auto simp: dict_has_def split: if_splits)

lemma dict_has_append: "dict_has k (d @ [(k', v)]) = (dict_has k d \<or> k = k')"
  by (auto simp: dict_has_def map_add_def split: option.splits)

lemma register_roles_ok:
  "distinct order \<Longrightarrow> \<forall>r \<in> set order. r \<in> set (provides i) \<longrightarrow> \<not> dict_has r reg \<Longrightarrow>
   register_roles order i reg =
     (reg @ map (\<lambda>r. (r, getPhysicalPath i)) (filter (\<lambda>r. r \<in> set (provides i)) order), None)"
proof (induction order arbitrary: reg)
  case Nil
  show ?case by simp
next
  case (Cons r order)
  show ?case
  proof (cases "r \<in> set (provides i)")
    case True
    then have new: "\<not> dict_has r reg" using Cons.prems by simp
    have "\<forall>r' \<in> set order. r' \<in> set (provides i) \<longrightarrow> \<not> dict_has r' (reg @ [(r, getPhysicalPath i)])"
      using Cons.prems by (auto simp: dict_has_append)
    then show ?thesis using True new Cons.IH [of "reg @ [(r, getPhysicalPath i)]"] Cons.prems
      by (simp add: dict_set_new)
  next
    case False
    then show ?thesis using Cons by simp
  qed
qed

lemma register_roles_clash:
  "distinct (pre @ c # post) \<Longrightarrow> c \<in> set (provides i) \<Longrightarrow> dict_has c reg \<Longrightarrow>
   \<forall>r \<in> set pre. r \<in> set (provides i) \<longrightarrow> \<not> dict_has r reg \<Longrightarrow>
   register_roles (pre @ c # post) i reg =
     (reg @ map (\<lambda>r. (r, getPhysicalPath i)) (filter (\<lambda>r. r \<in> set (provides i)) pre),
      Some (ValueError (''Role '' @ role_name c @ '' already registered'')))"
proof (induction pre arbitrary: reg)
  case Nil
  then show ?case by simp
next
  case (Cons r pre)
  show ?case
  proof (cases "r \<in> set (provides i)")
    case True
    then have new: "\<not> dict_has r reg" using Cons.prems by simp
    have 1: "\<forall>r' \<in> set pre. r' \<in> set (provides i) \<longrightarrow> \<not> dict_has r' (reg @ [(r, getPhysicalPath i)])"
      using Cons.prems by (auto simp: dict_has_append)
    have 2: "dict_has c (reg @ [(r, getPhysicalPath i)])"
      using Cons.prems by (simp add: dict_has_append)
    have 3: "distinct (pre @ c # post)" using Cons.prems by simp
    show ?thesis using True new Cons.IH [OF 3 Cons.prems(2) 2 1]
      by (simp add: dict_set_new)
  next
    case False
    then show ?thesis using Cons by simp
  qed
qed

lemma first_clash:
  "\<exists>r \<in> set order. P r \<Longrightarrow> \<exists>pre c post. order = pre @ c # post \<and> P c \<and> (\<forall>r \<in> set pre. \<not> P r)"
  by (metis split_list_first_prop)

lemma register_roles_fails:
  assumes "distinct order" "\<exists>r \<in> set order. r \<in> set (provides i) \<and> dict_has r reg"
  shows "\<exists>reg' c. register_roles order i reg =
            (reg', Some (ValueError (''Role '' @ role_name c @ '' already registered'')))"
proof -
  obtain pre c post where o: "order = pre @ c # post" and c: "c \<in> set (provides i) \<and> dict_has c reg"
    and pre: "\<forall>r \<in> set pre. \<not> (r \<in> set (provides i) \<and> dict_has r reg)"
    using first_clash [OF assms(2)] by blast
  have "register_roles (pre @ c # post) i reg =
     (reg @ map (\<lambda>r. (r, getPhysicalPath i)) (filter (\<lambda>r. r \<in> set (provides i)) pre),
      Some (ValueError (''Role '' @ role_name c @ '' already registered'')))"
    using assms(1) c pre by (intro register_roles_clash) (auto simp: o)
  then show ?thesis using o by blast
qed

lemma add_key_descriptors_element:
  "add_key_descriptors auth cs rd = Inr rd' \<Longrightarrow> element rd' = element rd"
  by (induction cs arbitrary: rd) (auto split: option.splits if_splits sum.splits)

lemma add_key_descriptors_ok:
  "\<forall>c \<in> set cs. readable auth c \<Longrightarrow> \<exists>rd'. add_key_descriptors auth cs rd = Inr rd'"
  by (induction cs arbitrary: rd) (auto simp: readable_def split: option.splits sum.splits)

lemma export_role_element:
  "export_role auth r p = Inr rd \<Longrightarrow> map_of (role2element auth) r = Some (element rd)"
  by (auto simp: export_role_def set_NameIDFormat_def gen_metadata_def gen_metadata_idpsso_def
      gen_metadata_spsso_def gen_metadata_sso_def add_attribute_metadata_def new_descriptor_def Let_def
      dest!: add_key_descriptors_element split: sum.splits option.splits if_splits role.splits)

lemma export_role_ok:
  assumes "r = idpsso \<or> r = spsso" "collaborators_ok auth r p"
  shows "\<exists>rd. export_role auth r p = Inr rd"
proof -
  obtain i el where i: "unrestrictedTraverse auth p = Inr i"
    and el: "map_of (role2element auth) r = Some el"
    and rd: "readable auth (certificate auth)" "readable auth (future_certificate auth)"
    and nf: "has_NameIDFormat auth el \<longrightarrow> supported i \<noteq> None"
    using assms(2) by (auto simp: collaborators_ok_def split: sum.splits option.splits)
  obtain rd1 where rd1: "add_key_descriptors auth [certificate auth, future_certificate auth]
      (new_descriptor el) = Inr rd1"
    using add_key_descriptors_ok [of "[certificate auth, future_certificate auth]" auth] rd
    by auto
  have "element rd1 = el" using add_key_descriptors_element [OF rd1] by (simp add: new_descriptor_def)
  then have "\<exists>rd2. set_NameIDFormat auth i rd1 = Inr rd2"
    using nf by (cases "supported i") (simp_all add: set_NameIDFormat_def)
  then obtain rd2 where rd2: "set_NameIDFormat auth i rd1 = Inr rd2" by blast
  show ?thesis using assms(1) i el rd1 rd2
    by (auto simp: export_role_def gen_metadata_def)
qed

lemma export_roles_append:
  "export_roles auth (xs @ ys) rds rno =
     (case export_roles auth xs rds rno of
        Inl e \<Rightarrow> Inl e
      | Inr (rds', rno') \<Rightarrow> export_roles auth ys rds' rno')"
proof (induction xs arbitrary: rds rno)
  case Nil
  show ?case by simp
next
  case (Cons rp xs)
  obtain r p where rp: "rp = (r, p)" by (cases rp)
  show ?case
  proof (cases "r = ap")
    case True
    then show ?thesis using rp by (simp add: Cons)
  next
    case False
    show ?thesis
    proof (cases "export_role auth r p")
      case (Inl e)
      then show ?thesis using False rp by simp
    next
      case (Inr rd)
      then show ?thesis using False rp
        by (simp add: Cons del: fun_upd_apply)
    qed
  qed
qed

lemma export_roles_acc:
  "export_roles auth reg rds rno = Inr (rds', rno') \<Longrightarrow>
   rno' = rno + length (filter (\<lambda>(r, p). r \<noteq> ap) reg) \<and>
   (\<forall>el. \<exists>new. rds' el = rds el @ new \<and>
      list_all2 (\<lambda>rd (r, p). export_role auth r p = Inr rd) new
        (filter (\<lambda>(r, p). r \<noteq> ap \<and> map_of (role2element auth) r = Some el) reg))"
proof (induction reg arbitrary: rds rno)
  case Nil
  then show ?case by simp
next
  case (Cons rp reg)
  obtain r p where rp: "rp = (r, p)" by (cases rp)
  show ?case
  proof (cases "r = ap")
    case True
    then show ?thesis using Cons rp by simp
  next
    case False
    then obtain rd where rd: "export_role auth r p = Inr rd"
      and rest: "export_roles auth reg (rds(element rd := rds (element rd) @ [rd])) (rno + 1) =
                   Inr (rds', rno')"
      using Cons.prems rp by (auto split: sum.splits)
    have el: "map_of (role2element auth) r = Some (element rd)"
      by (rule export_role_element [OF rd])
    note ih = Cons.IH [OF rest]
    have n: "rno' = rno + length (filter (\<lambda>(r, p). r \<noteq> ap) (rp # reg))"
      using ih False rp by simp
    have "\<exists>new. rds' k = rds k @ new \<and>
      list_all2 (\<lambda>rd (r, p). export_role auth r p = Inr rd) new
        (filter (\<lambda>(r, p). r \<noteq> ap \<and> map_of (role2element auth) r = Some k) (rp # reg))" for k
    proof -
      from ih obtain new where new: "rds' k = (rds(element rd := rds (element rd) @ [rd])) k @ new"
        and all: "list_all2 (\<lambda>rd (r, p). export_role auth r p = Inr rd) new
          (filter (\<lambda>(r, p). r \<noteq> ap \<and> map_of (role2element auth) r = Some k) reg)"
        by blast
      show ?thesis
      proof (cases "k = element rd")
        case True
        then have "rds' k = rds k @ (rd # new)" using new by simp
        moreover have "list_all2 (\<lambda>rd (r, p). export_role auth r p = Inr rd) (rd # new)
          (filter (\<lambda>(r, p). r \<noteq> ap \<and> map_of (role2element auth) r = Some k) (rp # reg))"
          using all rd el True False rp by simp
        ultimately show ?thesis by blast
      next
        case no: False
        then have "rds' k = rds k @ new" using new by simp
        moreover have "list_all2 (\<lambda>rd (r, p). export_role auth r p = Inr rd) new
          (filter (\<lambda>(r, p). r \<noteq> ap \<and> map_of (role2element auth) r = Some k) (rp # reg))"
          using all el no rp by auto
        ultimately show ?thesis by blast
      qed
    qed
    then show ?thesis using n by blast
  qed
qed

lemma export_roles_each:
  "export_roles auth reg rds rno = Inr (rds', rno') \<Longrightarrow>
   \<forall>(r, p) \<in> set reg. r \<noteq> ap \<longrightarrow> (\<exists>rd. export_role auth r p = Inr rd)"
proof (induction reg arbitrary: rds rno)
  case Nil
  then show ?case by simp
next
  case (Cons rp reg)
  obtain r p where rp: "rp = (r, p)" by (cases rp)
  show ?case
  proof (cases "r = ap")
    case True
    then show ?thesis using Cons rp by simp
  next
    case False
    then obtain rd where rd: "export_role auth r p = Inr rd"
      and rest: "export_roles auth reg (rds(element rd := rds (element rd) @ [rd])) (rno + 1) =
                   Inr (rds', rno')"
      using Cons.prems rp by (auto split: sum.splits)
    show ?thesis using Cons.IH [OF rest] rd rp by simp
  qed
qed

lemma export_roles_only_ap:
  "\<forall>(r, p) \<in> set reg. r = ap \<Longrightarrow> export_roles auth reg rds rno = Inr (rds, rno)"
  by (induction reg) auto

lemma export_role_never:
  "r = authn \<or> r = pdp \<Longrightarrow> \<exists>e. export_role auth r p = Inl e"
  by (auto simp: export_role_def gen_metadata_def split: sum.splits option.splits)

lemma export_role_unsupported:
  "r = authn \<or> r = pdp \<Longrightarrow> collaborators_ok auth r p \<Longrightarrow>
   export_role auth r p = Inl (no_attribute (''gen_metadata_'' @ role_name r))"
proof -
  assume r: "r = authn \<or> r = pdp" and ok: "collaborators_ok auth r p"
  obtain i el where i: "unrestrictedTraverse auth p = Inr i"
    and el: "map_of (role2element auth) r = Some el"
    and rd: "readable auth (certificate auth)" "readable auth (future_certificate auth)"
    and nf: "has_NameIDFormat auth el \<longrightarrow> supported i \<noteq> None"
    using ok by (auto simp: collaborators_ok_def split: sum.splits option.splits)
  obtain rd1 where rd1: "add_key_descriptors auth [certificate auth, future_certificate auth]
      (new_descriptor el) = Inr rd1"
    using add_key_descriptors_ok [of "[certificate auth, future_certificate auth]" auth] rd
    by auto
  have "element rd1 = el" using add_key_descriptors_element [OF rd1] by (simp add: new_descriptor_def)
  then have "\<exists>rd2. set_NameIDFormat auth i rd1 = Inr rd2"
    using nf by (cases "supported i") (simp_all add: set_NameIDFormat_def)
  then obtain rd2 where rd2: "set_NameIDFormat auth i rd1 = Inr rd2" by blast
  show ?thesis using r i el rd1 rd2
    by (auto simp: export_role_def gen_metadata_def)
qed

lemma export_roles_ok:
  "\<forall>(r, p) \<in> set reg. r \<noteq> ap \<longrightarrow> (r = idpsso \<or> r = spsso) \<and> collaborators_ok auth r p \<Longrightarrow>
   \<exists>rds' rno'. export_roles auth reg rds rno = Inr (rds', rno')"
proof (induction reg arbitrary: rds rno)
  case Nil
  show ?case by simp
next
  case (Cons rp reg)
  obtain r p where rp: "rp = (r, p)" by (cases rp)
  show ?case
  proof (cases "r = ap")
    case True
    then show ?thesis using Cons rp by simp
  next
    case False
    then obtain rd where "export_role auth r p = Inr rd"
      using Cons.prems rp export_role_ok [of r auth p] by auto
    then show ?thesis using False rp Cons by simp
  qed
qed

lemma export_roles_never:
  "\<exists>(r, p) \<in> set reg. r = authn \<or> r = pdp \<Longrightarrow> \<exists>e. export_roles auth reg rds rno = Inl e"
proof (rule ccontr)
  assume bad: "\<exists>(r, p) \<in> set reg. r = authn \<or> r = pdp"
  assume "\<not> (\<exists>e. export_roles auth reg rds rno = Inl e)"
  then obtain rds' rno' where "export_roles auth reg rds rno = Inr (rds', rno')"
    by (cases "export_roles auth reg rds rno") auto
  from export_roles_each [OF this] bad obtain r p rd where
    "r = authn \<or> r = pdp" "export_role auth r p = Inr rd"
    by fastforce
  then show False using export_role_never [of r auth p] by auto
qed

lemma count_one:
  "distinct ks \<Longrightarrow> sum_list (map (\<lambda>k. if k = k0 then Suc 0 else 0) ks) = (if k0 \<in> set ks then 1 else 0)"
  by (induction ks) auto

lemma count_by_kind:
  "distinct ks \<Longrightarrow> \<forall>x \<in> set xs. P x \<longrightarrow> (\<exists>k \<in> set ks. f x = Some k) \<Longrightarrow>
   sum_list (map (\<lambda>k. length (filter (\<lambda>x. P x \<and> f x = Some k) xs)) ks) = length (filter P xs)"
proof (induction xs)
  case Nil
  show ?case by simp
next
  case (Cons x xs)
  have ih: "sum_list (map (\<lambda>k. length (filter (\<lambda>x. P x \<and> f x = Some k) xs)) ks) = length (filter P xs)"
    using Cons by simp
  have split: "sum_list (map (\<lambda>k. length (filter (\<lambda>x. P x \<and> f x = Some k) (x # xs))) ks) =
      sum_list (map (\<lambda>k. if P x \<and> f x = Some k then Suc 0 else 0) ks) +
      sum_list (map (\<lambda>k. length (filter (\<lambda>x. P x \<and> f x = Some k) xs)) ks)"
    by (induction ks) auto
  show ?case
  proof (cases "P x")
    case True
    then obtain k0 where k0: "k0 \<in> set ks" "f x = Some k0" using Cons.prems by auto
    have "sum_list (map (\<lambda>k. if P x \<and> f x = Some k then Suc 0 else 0) ks) =
          sum_list (map (\<lambda>k. if k = k0 then Suc 0 else 0) ks)"
      using True k0 by (intro arg_cong [where f = sum_list] map_cong) auto
    then show ?thesis using split ih True k0 count_one [OF Cons.prems(1), of k0] by simp
  next
    case False
    then show ?thesis using split ih by simp
  qed
qed

lemma export_count:
  assumes "export_own_metadata auth now reg = Inr ed"
  shows "descriptor_count auth ed = length (filter (\<lambda>(r, p). r \<noteq> ap) reg)"
proof -
  obtain rds rno where l: "export_roles auth reg (\<lambda>el. []) 0 = Inr (rds, rno)"
    and ed: "ed = \<lparr>entityID = entity_id auth, validUntil = now + metadata_validity auth,
                   role_descriptors = rds\<rparr>"
    using assms by (auto simp: export_own_metadata_def split: sum.splits if_splits)
  have len: "length (rds el) =
      length (filter (\<lambda>(r, p). r \<noteq> ap \<and> map_of (role2element auth) r = Some el) reg)" for el
  proof -
    from export_roles_acc [OF l] obtain new where "rds el = [] @ new"
      "list_all2 (\<lambda>rd (r, p). export_role auth r p = Inr rd) new
        (filter (\<lambda>(r, p). r \<noteq> ap \<and> map_of (role2element auth) r = Some el) reg)"
      by blast
    then show ?thesis by (auto dest: list_all2_lengthD)
  qed
  have kinds: "\<forall>x \<in> set reg. fst x \<noteq> ap \<longrightarrow>
      (\<exists>k \<in> set (element_kinds auth). map_of (role2element auth) (fst x) = Some k)"
  proof (intro ballI impI)
    fix x assume x: "x \<in> set reg" "fst x \<noteq> ap"
    obtain r p where rp: "x = (r, p)" by (cases x)
    then obtain rd where "export_role auth r p = Inr rd"
      using export_roles_each [OF l] x by auto
    then have "map_of (role2element auth) r = Some (element rd)"
      by (rule export_role_element)
    moreover from this have "element rd \<in> set (element_kinds auth)"
      by (force simp: element_kinds_def dest: map_of_SomeD)
    ultimately show "\<exists>k \<in> set (element_kinds auth). map_of (role2element auth) (fst x) = Some k"
      using rp by simp
  qed
  have count: "sum_list (map (\<lambda>k. length (filter (\<lambda>x. fst x \<noteq> ap \<and>
            map_of (role2element auth) (fst x) = Some k) reg)) (element_kinds auth))
        = length (filter (\<lambda>x. fst x \<noteq> ap) reg)"
    by (rule count_by_kind [OF _ kinds]) (simp add: element_kinds_def)
  have f1: "(\<lambda>(r, p). r \<noteq> ap \<and> map_of (role2element auth) r = Some k) =
            (\<lambda>x. fst x \<noteq> ap \<and> map_of (role2element auth) (fst x) = Some k)" for k
    by (auto simp: fun_eq_iff)
  have f2: "(\<lambda>(r, p). r \<noteq> ap) = (\<lambda>x :: role \<times> path. fst x \<noteq> ap)"
    by (auto simp: fun_eq_iff)
  have "descriptor_count auth ed =
      sum_list (map (\<lambda>el. length (filter (\<lambda>(r, p). r \<noteq> ap \<and>
         map_of (role2element auth) r = Some el) reg)) (element_kinds auth))"
    by (simp add: descriptor_count_def ed len)
  also have "\<dots> = sum_list (map (\<lambda>k. length (filter (\<lambda>x. fst x \<noteq> ap \<and>
            map_of (role2element auth) (fst x) = Some k) reg)) (element_kinds auth))"
    by (simp only: f1)
  also have "\<dots> = length (filter (\<lambda>x. fst x \<noteq> ap) reg)"
    by (rule count)
  also have "\<dots> = length (filter (\<lambda>(r, p). r \<noteq> ap) reg)"
    by (simp only: f2)
  finally show ?thesis .
qed



lemma update_roles: "roles (fst (update auth st)) = roles st"
  by (simp add: update_def split: sum.splits)

lemma dict_has_mapped:
  "r \<in> set rs \<Longrightarrow> dict_has r (reg @ map (\<lambda>r. (r, p)) rs)"
  by (force simp: dict_has_def map_of_eq_None_iff)



lemma move_handler_refusal:
  "(snd (move_handler site reg \<lparr>oldParent = Some parent, newParent = None\<rparr> managed h) =
      Inl (ValueError ''must first delete role implementers'')) = (site \<noteq> None \<and> reg \<noteq> [])"
  by (auto simp: move_handler_def Let_def split: option.splits)


section \<open>Claim C10: quoting an entity id round-trips\<close>

text \<open>
  C10. For every entity id \<open>s\<close>, \<open>_unquote(_quote(s))\<close> is \<open>s\<close> again, whatever characters
  \<open>s\<close> holds (\<open>%\<close>, \<open>$\<close> and the characters an object id may not contain included), so
  looking an entity up by its quoted id finds exactly what the entity table holds under
  the original id.
\<close>

theorem quote_roundtrip:
  "unquote (quote s) = s \<and> getOb entities (quote s) = entities s"
proof -
  have "unquote (quote s) = s"
    using unquote_quote_append [of s "[]"] by (simp add: unquote_def quote_def)
  then show ?thesis
    by (simp add: getOb_def get_entity_def split: option.splits)
qed

text \<open>An id with \<open>%\<close>, \<open>$\<close>, a colon, slashes and a blank.\<close>

theorem quote_roundtrip_witness:
  "quote ''http://a.b/c%$ d'' = ''http$3A$2F$2Fa.b$2Fc$25$24$20d'' \<and>
   unquote ''http$3A$2F$2Fa.b$2Fc$25$24$20d'' = ''http://a.b/c%$ d'' \<and>
   getOb [''http://a.b/c%$ d'' \<mapsto> (1::nat)] ''http$3A$2F$2Fa.b$2Fc$25$24$20d'' = Some 1"
proof -
  have q: "quote ''http://a.b/c%$ d'' = ''http$3A$2F$2Fa.b$2Fc$25$24$20d''"
    by code_simp
  show ?thesis
    using quote_roundtrip [of "''http://a.b/c%$ d''" "[''http://a.b/c%$ d'' \<mapsto> (1::nat)]"]
    by (simp add: q)
qed

section \<open>Claim C1: the selector without a requested index\<close>

text \<open>
  C1. Without a requested index the selector returns, of the services that the service
  provider declares (those of the first \<open>SPSSODescriptor\<close> that declares any; one
  descriptor at most is expected): the first service whose \<open>isDefault\<close> is explicitly
  true; if there is none, the first service whose \<open>isDefault\<close> is not set at all (an
  explicit false counts as set); if there is none, the first service in declaration
  order; and \<open>None\<close> when no service is declared.
\<close>

theorem selector_default_order:
  "attribute_consuming_service_of md None = select_default (declared_services md)"
  by (simp add: attribute_consuming_service_of_def declared_services_def acs_of_sps_default)

text \<open>
  The specification's example: index 2 is chosen; without it index 0 (unset beats an
  explicit false); without that too index 1; and nothing from no service.
\<close>

theorem selector_default_order_witness:
  "attribute_consuming_service_of (metadata_of example_services) None =
     Some \<lparr>index = 2, isDefault = Some True, RequestedAttribute = []\<rparr> \<and>
   attribute_consuming_service_of (metadata_of (take 2 example_services)) None =
     Some \<lparr>index = 0, isDefault = None, RequestedAttribute = []\<rparr> \<and>
   attribute_consuming_service_of (metadata_of (take 1 (drop 1 example_services))) None =
     Some \<lparr>index = 1, isDefault = Some False, RequestedAttribute = []\<rparr> \<and>
   attribute_consuming_service_of (metadata_of []) None = None"
  using selector_default_order [of "metadata_of example_services"]
    selector_default_order [of "metadata_of (take 2 example_services)"]
    selector_default_order [of "metadata_of (take 1 (drop 1 example_services))"]
    selector_default_order [of "metadata_of []"]
  by (simp add: select_default_def declared_services_def metadata_of_def example_services_def)

section \<open>Claim C3: an unknown requested index\<close>

text \<open>
  C3. When an index is requested and no attribute consuming service of the metadata has
  it, the selector returns \<open>None\<close> and the release logs the fact and returns the
  protocol-level result \<open>ResourceNotRecognized\<close>; when no index is requested and no
  service is found, the release returns \<open>None\<close> and logs nothing.
\<close>

theorem unknown_index_not_recognized:
  assumes "get_recent_metadata self (py_or target_eid issuer) = Inr md"
  shows "((\<forall>sp \<in> set (SPSSODescriptor md). \<forall>acs \<in> set (AttributeConsumingService sp). index acs \<noteq> i) \<longrightarrow>
            attribute_consuming_service_of md (Some i) = None \<and>
            make_attribute_statement self target_eid issuer (Some i) =
              ([AcsNotLocated i (py_or target_eid issuer)], Inr ResourceNotRecognized)) \<and>
         (attribute_consuming_service_of md None = None \<longrightarrow>
            make_attribute_statement self target_eid issuer None = ([], Inr Nothing))"
  using assms
  by (simp add: make_attribute_statement_def attribute_consuming_service_of_def
      acs_of_sps_no_index Let_def)

text \<open>Index 5 against a provider with the indices 0 and 1, and a provider without services.\<close>

theorem unknown_index_not_recognized_witness:
  "get_recent_metadata example_provider (py_or None ''sp'') = Inr example_sp \<and>
   attribute_consuming_service_of example_sp (Some 5) = None \<and>
   make_attribute_statement example_provider None ''sp'' (Some 5) =
     ([AcsNotLocated 5 ''sp''], Inr ResourceNotRecognized) \<and>
   make_attribute_statement (example_provider\<lparr>get_recent_metadata := \<lambda>eid. Inr (metadata_of [])\<rparr>)
     None ''sp'' None = ([], Inr Nothing)"
proof -
  have a: "get_recent_metadata example_provider (py_or None ''sp'') = Inr example_sp"
    by (simp add: example_provider_def)
  have b: "get_recent_metadata (example_provider\<lparr>get_recent_metadata := \<lambda>eid. Inr (metadata_of [])\<rparr>)
             (py_or None ''sp'') = Inr (metadata_of [])"
    by simp
  have c: "attribute_consuming_service_of (metadata_of []) None = None"
    by (simp add: attribute_consuming_service_of_def metadata_of_def acs_of_sp_def)
  show ?thesis
    using a unknown_index_not_recognized [OF a, of 5] unknown_index_not_recognized [OF b, of 5] c
    by (simp add: example_sp_def metadata_of_def)
qed

section \<open>Claim C6: requested attributes that miss the catalog\<close>

text \<open>
  C6. A requested attribute whose (normalized format, name) pair is not in the catalog
  is logged and skipped, and the loop goes on with the remaining attributes. The loop
  is pinned against the request itself: it logs one record for each missing attribute,
  in request order, and it releases the entries of all the attributes found, in request
  order, after those built before; an exception while obtaining or converting a value
  is the only thing that ends it early, and then the log holds the misses before the
  attribute that raised. The release as a whole returns \<open>None\<close> when no entry was
  emitted, in particular when every requested attribute misses, and the statement of
  the emitted entries otherwise; it never returns an empty attribute statement.
\<close>

theorem missing_attributes_skipped:
  "(attrs (ran_of self ra) = None \<longrightarrow>
      release_loop self eid attrs (ra # ras) av log =
      release_loop self eid attrs ras av (log @ [AttributeNotFound (ran_of self ra) eid])) \<and>
   snd (release_loop self eid attrs ras av log) =
     snd (release_loop self eid attrs (filter (\<lambda>ra. attrs (ran_of self ra) \<noteq> None) ras) av log) \<and>
   (get_recent_metadata self (py_or target_eid issuer) = Inr md \<and>
    attribute_consuming_service_of md ix = Some acs \<and>
    (\<forall>ra \<in> set (RequestedAttribute acs). catalog (objectValues self) (ran_of self ra) = None) \<longrightarrow>
      make_attribute_statement self target_eid issuer ix =
        (map (\<lambda>ra. AttributeNotFound (ran_of self ra) (py_or target_eid issuer))
           (RequestedAttribute acs), Inr Nothing)) \<and>
   snd (make_attribute_statement self target_eid issuer ix) \<noteq> Inr (AttributeStatement []) \<and>
   release_loop self eid attrs ras av log =
     (log @ map (\<lambda>ra. AttributeNotFound (ran_of self ra) eid)
              (missed self attrs (takeWhile (passes self eid attrs) ras)),
      case load_all (emit self eid) (found self attrs ras) of
        Inl e \<Rightarrow> Inl e
      | Inr atts \<Rightarrow> Inr (av @ atts)) \<and>
   (get_recent_metadata self (py_or target_eid issuer) = Inr md \<and>
    attribute_consuming_service_of md ix = Some acs \<longrightarrow>
      make_attribute_statement self target_eid issuer ix =
        (map (\<lambda>ra. AttributeNotFound (ran_of self ra) (py_or target_eid issuer))
           (missed self (catalog (objectValues self))
              (takeWhile (passes self (py_or target_eid issuer) (catalog (objectValues self)))
                 (RequestedAttribute acs))),
         case load_all (emit self (py_or target_eid issuer))
                (found self (catalog (objectValues self)) (RequestedAttribute acs)) of
           Inl e \<Rightarrow> Inl e
         | Inr atts \<Rightarrow> Inr (if atts = [] then Nothing else AttributeStatement atts)))"
proof -
  have 1: "attrs (ran_of self ra) = None \<longrightarrow>
      release_loop self eid attrs (ra # ras) av log =
      release_loop self eid attrs ras av (log @ [AttributeNotFound (ran_of self ra) eid])"
    by simp
  have 3: "get_recent_metadata self (py_or target_eid issuer) = Inr md \<and>
    attribute_consuming_service_of md ix = Some acs \<and>
    (\<forall>ra \<in> set (RequestedAttribute acs). catalog (objectValues self) (ran_of self ra) = None) \<longrightarrow>
      make_attribute_statement self target_eid issuer ix =
        (map (\<lambda>ra. AttributeNotFound (ran_of self ra) (py_or target_eid issuer))
           (RequestedAttribute acs), Inr Nothing)"
    by (simp add: make_attribute_statement_def Let_def release_loop_all_miss)
  show ?thesis
    using 1 3 release_loop_filter [of self eid attrs ras av log]
      make_attribute_statement_not_empty [of self target_eid issuer ix]
      release_loop_spec [of self eid attrs ras av log]
      make_attribute_statement_spec [of self target_eid issuer md ix acs]
    by blast
qed


text \<open>
  Service 1 requests \<open>phone\<close> only, which the catalog lacks: nothing is released.
  Service 0 requests \<open>phone\<close> and \<open>mail\<close>: \<open>phone\<close> is logged and \<open>mail\<close> released.
  The third provider is asked for \<open>mail\<close>, \<open>phone\<close> and \<open>cn\<close>: \<open>phone\<close> is logged, and
  both \<open>mail\<close> and, after the miss, \<open>cn\<close> are released.
\<close>

theorem missing_attributes_skipped_witness:
  "catalog (objectValues example_provider) (ran_of example_provider requested_phone) = None \<and>
   make_attribute_statement example_provider None ''sp'' (Some 1) =
     ([AttributeNotFound (''urn:oasis:names:tc:SAML:2.0:attrname-format:unspecified'', ''phone'') ''sp''],
      Inr Nothing) \<and>
   make_attribute_statement example_provider None ''sp'' None =
     ([AttributeNotFound (''urn:oasis:names:tc:SAML:2.0:attrname-format:unspecified'', ''phone'') ''sp''],
      Inr (AttributeStatement
        [\<lparr>NameFormat = uri_format, Name = ''mail'', FriendlyName = ''mail'',
          AttributeValue = [''a@example.org'']\<rparr>])) \<and>
   make_attribute_statement example_provider_three None ''sp'' None =
     ([AttributeNotFound (''urn:oasis:names:tc:SAML:2.0:attrname-format:unspecified'', ''phone'') ''sp''],
      Inr (AttributeStatement
        [\<lparr>NameFormat = uri_format, Name = ''mail'', FriendlyName = ''mail'',
          AttributeValue = [''a@example.org'']\<rparr>,
         \<lparr>NameFormat = uri_format, Name = ''cn'', FriendlyName = ''name'',
          AttributeValue = [''Alice'']\<rparr>]))"
proof -
  let ?acs1 = "\<lparr>index = 1, isDefault = None, RequestedAttribute = [requested_phone]\<rparr>"
  let ?acs0 = "\<lparr>index = 0, isDefault = Some True,
                RequestedAttribute = [requested_phone, requested_mail]\<rparr>"
  let ?acs3 = "\<lparr>index = 0, isDefault = None,
                RequestedAttribute = [requested_mail, requested_phone, requested_cn]\<rparr>"
  have miss: "catalog (objectValues example_provider) (ran_of example_provider requested_phone) = None"
    by (simp add: catalog_def example_provider_def ran_of_def requested_phone_def uri_format_def)
  have md: "get_recent_metadata example_provider (py_or None ''sp'') = Inr example_sp"
    by (simp add: example_provider_def)
  have sel1: "attribute_consuming_service_of example_sp (Some 1) = Some ?acs1"
    by (simp add: attribute_consuming_service_of_def example_sp_def metadata_of_def acs_of_sp_def)
  have sel0: "attribute_consuming_service_of example_sp None = Some ?acs0"
    by (simp add: attribute_consuming_service_of_def example_sp_def metadata_of_def acs_of_sp_def)
  have all: "make_attribute_statement example_provider None ''sp'' (Some 1) =
      ([AttributeNotFound (ran_of example_provider requested_phone) ''sp''], Inr Nothing)"
    using missing_attributes_skipped [of _ example_provider _ _ _ _ _ None "''sp''" example_sp "Some 1" ?acs1]
      miss md sel1 by simp
  have part: "make_attribute_statement example_provider None ''sp'' None =
     ([AttributeNotFound (''urn:oasis:names:tc:SAML:2.0:attrname-format:unspecified'', ''phone'') ''sp''],
      Inr (AttributeStatement
        [\<lparr>NameFormat = uri_format, Name = ''mail'', FriendlyName = ''mail'',
          AttributeValue = [''a@example.org'']\<rparr>]))"
    using missing_attributes_skipped [of _ example_provider _ _ _ _ _ None "''sp''" example_sp None ?acs0]
      md sel0
    by (simp add: example_provider_def catalog_def ran_of_def requested_phone_def
        requested_mail_def converted_values_def raw_value_def decoded_def uri_format_def
        found_def missed_def passes_def emit_def)
  have md3: "get_recent_metadata example_provider_three (py_or None ''sp'') = Inr example_sp_three"
    by (simp add: example_provider_three_def)
  have sel3: "attribute_consuming_service_of example_sp_three None = Some ?acs3"
    by (simp add: attribute_consuming_service_of_def example_sp_three_def metadata_of_def acs_of_sp_def)
  have three: "make_attribute_statement example_provider_three None ''sp'' None =
     ([AttributeNotFound (''urn:oasis:names:tc:SAML:2.0:attrname-format:unspecified'', ''phone'') ''sp''],
      Inr (AttributeStatement
        [\<lparr>NameFormat = uri_format, Name = ''mail'', FriendlyName = ''mail'',
          AttributeValue = [''a@example.org'']\<rparr>,
         \<lparr>NameFormat = uri_format, Name = ''cn'', FriendlyName = ''name'',
          AttributeValue = [''Alice'']\<rparr>]))"
    using missing_attributes_skipped [of _ example_provider_three _ _ _ _ _ None "''sp''"
        example_sp_three None ?acs3] md3 sel3
    by (simp add: example_provider_three_def example_provider_def catalog_def ran_of_def
        requested_phone_def requested_mail_def requested_cn_def converted_values_def raw_value_def
        decoded_def uri_format_def found_def missed_def passes_def emit_def)
  show ?thesis using miss all part three
    by (simp add: ran_of_def requested_phone_def example_provider_def)
qed

section \<open>Claim C2: cached keys are returned only while valid, and never after invalidation\<close>

text \<open>
  C2. \<open>__getitem__\<close> (the key manager's \<open>get\<close>) returns the keys of the cache slot, and
  leaves the cache alone, when the slot holds an entry that is valid at the current
  time (\<open>validUntil\<close> is \<open>None\<close> or the time is at most \<open>validUntil\<close>). With no entry or
  an expired one it determines the keys anew, and what it then returns does not depend
  on the cache at all. \<open>__delitem__\<close> removes the slot whatever it holds, so the next
  lookup determines the keys anew and cannot return the previous slot's keys.
\<close>

theorem cache_validity_and_invalidation:
  "(cached km eid = Some (vu, ks) \<and> valid_at now vu \<longrightarrow> getitem auth now km eid = (km, Inr ks)) \<and>
   (cached km eid = None \<or> (\<exists>vu ks. cached km eid = Some (vu, ks) \<and> \<not> valid_at now vu) \<longrightarrow>
      getitem auth now km eid = determine_keys auth km eid) \<and>
   snd (determine_keys auth km eid) = snd (determine_keys auth km' eid) \<and>
   delitem km eid eid = None \<and>
   getitem auth now (delitem km eid) eid = determine_keys auth (delitem km eid) eid"
proof -
  have "delitem km eid eid = None"
    by (auto simp: delitem_def)
  moreover have "getitem auth now (delitem km eid) eid = determine_keys auth (delitem km eid) eid"
    by (rule getitem_invalid) (simp add: cached_delitem)
  ultimately show ?thesis
    using getitem_valid [of km eid vu ks now auth] getitem_invalid [of km eid now auth]
      determine_keys_cache_free [of auth km eid km']
    by blast
qed

text \<open>
  A slot valid until 100: read at time 50, recomputed at time 150, and recomputed at
  time 50 after an invalidation.
\<close>

theorem cache_validity_and_invalidation_witness:
  "cached [''sp'' \<mapsto> Volatile (Some (Some 100, [''old'']))] ''sp'' = Some (Some 100, [''old'']) \<and>
   valid_at 50 (Some 100) \<and> \<not> valid_at 150 (Some 100) \<and>
   getitem example_authority 50 [''sp'' \<mapsto> Volatile (Some (Some 100, [''old'']))] ''sp'' =
     ([''sp'' \<mapsto> Volatile (Some (Some 100, [''old'']))], Inr [''old'']) \<and>
   snd (getitem example_authority 150 [''sp'' \<mapsto> Volatile (Some (Some 100, [''old'']))] ''sp'') =
     Inr [''key of c1'', ''key of c2'', ''key of c3''] \<and>
   snd (getitem example_authority 50
          (delitem [''sp'' \<mapsto> Volatile (Some (Some 100, [''old'']))] ''sp'') ''sp'') =
     Inr [''key of c1'', ''key of c2'', ''key of c3'']"
proof -
  let ?km = "[''sp'' \<mapsto> Volatile (Some (Some 100, [''old'']))] :: string keys_manager"
  have c: "cached ?km ''sp'' = Some (Some 100, [''old''])"
    by (simp add: cached_def)
  have v: "valid_at 50 (Some 100)" "\<not> valid_at 150 (Some 100)"
    by (simp_all add: valid_at_def)
  have d: "snd (determine_keys example_authority Map.empty ''sp'') =
      Inr [''key of c1'', ''key of c2'', ''key of c3'']"
    by (simp add: determine_keys_def foreign_keys_def example_authority_def example_roles_def
        example_peer_def)
  note t1 = cache_validity_and_invalidation [of ?km "''sp''" "Some 100" "[''old'']" 50 example_authority Map.empty]
  note t2 = cache_validity_and_invalidation [of ?km "''sp''" "Some 100" "[''old'']" 150 example_authority Map.empty]
  note t3 = cache_validity_and_invalidation [of "delitem ?km ''sp''" "''sp''" "Some 100" "[''old'']" 50 example_authority Map.empty]
  have g1: "getitem example_authority 50 ?km ''sp'' = (?km, Inr [''old''])"
    using t1 c v by blast
  have g2: "snd (getitem example_authority 150 ?km ''sp'') = Inr [''key of c1'', ''key of c2'', ''key of c3'']"
    using t2 c v d by metis
  have g3: "snd (getitem example_authority 50 (delitem ?km ''sp'') ''sp'') =
      Inr [''key of c1'', ''key of c2'', ''key of c3'']"
    using t1 t3 d by metis
  show ?thesis
    using c v g1 g2 g3 by (intro conjI)
qed

section \<open>Claim C4: the authority's own key\<close>

text \<open>
  C4. For the authority's own entity id the keys are the one private key loaded from
  the configured key file. Without a configured password (none, or an empty one) the
  loader is given the dummy password \<open>fail\<close>, so that it does not ask a terminal. The
  slot stored is \<open>(None, keys)\<close>: at every later time the lookup returns these keys and
  leaves the cache as it is, so only an invalidation ends the entry.
\<close>

theorem own_key_never_expires:
  assumes "entity_id auth = eid" and "private_key auth = Some fn"
  shows "((\<forall>pw. private_key_password auth = Some pw \<longrightarrow> \<not> truthy pw) \<longrightarrow>
            own_keys auth =
              (case Key_load auth (make_absolute (clienthome auth) fn) ''fail'' of
                 Inl e \<Rightarrow> Inl e | Inr k \<Rightarrow> Inr [k])) \<and>
         (own_keys auth = Inr ks \<longrightarrow>
            length ks = 1 \<and>
            determine_keys auth km eid = (km(eid \<mapsto> Volatile (Some (None, ks))), Inr ks) \<and>
            (\<forall>now. getitem auth now (km(eid \<mapsto> Volatile (Some (None, ks)))) eid =
                     (km(eid \<mapsto> Volatile (Some (None, ks))), Inr ks)))"
proof -
  have 1: "(\<forall>pw. private_key_password auth = Some pw \<longrightarrow> \<not> truthy pw) \<longrightarrow>
            own_keys auth =
              (case Key_load auth (make_absolute (clienthome auth) fn) ''fail'' of
                 Inl e \<Rightarrow> Inl e | Inr k \<Rightarrow> Inr [k])"
    using assms(2) by (auto simp: own_keys_def key_password_def split: option.splits)
  have 2: "own_keys auth = Inr ks \<longrightarrow> length ks = 1"
    by (auto simp: own_keys_def split: option.splits sum.splits)
  have 3: "\<forall>now. getitem auth now (km(eid \<mapsto> Volatile (Some (None, ks)))) eid =
                     (km(eid \<mapsto> Volatile (Some (None, ks))), Inr ks)"
    by (simp add: getitem_def)
  show ?thesis using 1 2 3 own_entry [OF assms(1), of ks km] by blast
qed

text \<open>The example authority has the key file \<open>key.pem\<close> under \<open>/var\<close> and no password.\<close>

theorem own_key_never_expires_witness:
  "entity_id example_authority = ''https://idp.example.org'' \<and>
   private_key example_authority = Some ''key.pem'' \<and>
   private_key_password example_authority = None \<and>
   own_keys example_authority = Inr [''/var/key.pem:fail''] \<and>
   getitem example_authority 0 Map.empty ''https://idp.example.org'' =
     ([''https://idp.example.org'' \<mapsto> Volatile (Some (None, [''/var/key.pem:fail'']))],
      Inr [''/var/key.pem:fail'']) \<and>
   getitem example_authority 1000000
       [''https://idp.example.org'' \<mapsto> Volatile (Some (None, [''/var/key.pem:fail'']))]
       ''https://idp.example.org'' =
     ([''https://idp.example.org'' \<mapsto> Volatile (Some (None, [''/var/key.pem:fail'']))],
      Inr [''/var/key.pem:fail''])"
proof -
  have a: "entity_id example_authority = ''https://idp.example.org''"
    and b: "private_key example_authority = Some ''key.pem''"
    and c: "private_key_password example_authority = None"
    by (simp_all add: example_authority_def)
  have l: "Key_load example_authority (make_absolute (clienthome example_authority) ''key.pem'') ''fail''
      = Inr ''/var/key.pem:fail''"
    by (simp add: example_authority_def make_absolute_def join_def isabs_def)
  have g: "getitem example_authority 0 Map.empty ''https://idp.example.org'' =
      determine_keys example_authority Map.empty ''https://idp.example.org''"
    by (simp add: getitem_def)
  show ?thesis
    using a b c l g
      own_key_never_expires [OF a b, of "[''/var/key.pem:fail'']" Map.empty]
    by simp
qed

section \<open>Claim C5: the keys of a foreign entity\<close>

text \<open>
  C5. For an entity id other than the authority's own, whose metadata the repository
  yields, the keys are the verification keys loaded from the signing certificates of
  all role sections, taken in role order, each distinct certificate once at the place
  of its first occurrence (the first failing load is the failure of the lookup); the
  slot stored holds the metadata's \<open>validUntil\<close> with these keys. A lookup that finds no
  cached entry does exactly this.
\<close>

theorem foreign_keys_deduplicated:
  assumes "entity_id auth \<noteq> eid" and "metadata_by_id auth eid = Inr md"
    and "recent_validUntil md = Inr vu"
  shows "snd (determine_keys auth km eid) =
           load_all (Key_loadMemory auth) (first_seen (signing_certificates auth md)) \<and>
         (load_all (Key_loadMemory auth) (first_seen (signing_certificates auth md)) = Inr keys \<longrightarrow>
            fst (determine_keys auth km eid) eid = Some (Volatile (Some (vu, keys)))) \<and>
         distinct (first_seen (signing_certificates auth md)) \<and>
         set (first_seen (signing_certificates auth md)) = set (signing_certificates auth md) \<and>
         first_seen (signing_certificates auth md) = rev (remdups (rev (signing_certificates auth md))) \<and>
         (cached km eid = None \<longrightarrow> getitem auth now km eid = determine_keys auth km eid)"
proof (intro conjI impI)
  show "snd (determine_keys auth km eid) =
          load_all (Key_loadMemory auth) (first_seen (signing_certificates auth md))"
    by (rule determine_keys_foreign(1) [OF assms])
  show "fst (determine_keys auth km eid) eid = Some (Volatile (Some (vu, keys)))"
    if "load_all (Key_loadMemory auth) (first_seen (signing_certificates auth md)) = Inr keys"
    using that by (rule determine_keys_foreign(2) [OF assms])
  show "distinct (first_seen (signing_certificates auth md))"
    by (rule first_seen_distinct)
  show "set (first_seen (signing_certificates auth md)) = set (signing_certificates auth md)"
    by (rule first_seen_set)
  show "first_seen (signing_certificates auth md) = rev (remdups (rev (signing_certificates auth md)))"
    by (rule first_seen_remdups)
  show "getitem auth now km eid = determine_keys auth km eid" if "cached km eid = None"
    using that by (simp add: getitem_invalid)
qed

text \<open>
  The peer lists \<open>c1, c2, c1\<close> for one role and \<open>c2, c3\<close> for another, valid until 100.
\<close>

theorem foreign_keys_deduplicated_witness:
  "entity_id example_authority \<noteq> ''sp'' \<and>
   metadata_by_id example_authority ''sp'' = Inr example_peer \<and>
   recent_validUntil example_peer = Inr (Some 100) \<and>
   signing_certificates example_authority example_peer = [''c1'', ''c2'', ''c1'', ''c2'', ''c3''] \<and>
   snd (determine_keys example_authority Map.empty ''sp'') =
     Inr [''key of c1'', ''key of c2'', ''key of c3''] \<and>
   fst (determine_keys example_authority Map.empty ''sp'') ''sp'' =
     Some (Volatile (Some (Some 100, [''key of c1'', ''key of c2'', ''key of c3''])))"
proof -
  have a: "entity_id example_authority \<noteq> ''sp''"
    and b: "metadata_by_id example_authority ''sp'' = Inr example_peer"
    and c: "recent_validUntil example_peer = Inr (Some 100)"
    by (simp_all add: example_authority_def example_peer_def)
  have s: "signing_certificates example_authority example_peer = [''c1'', ''c2'', ''c1'', ''c2'', ''c3'']"
    by (simp add: signing_certificates_def example_authority_def example_peer_def example_roles_def)
  have l: "load_all (Key_loadMemory example_authority) (first_seen [''c1'', ''c2'', ''c1'', ''c2'', ''c3''])
      = Inr [''key of c1'', ''key of c2'', ''key of c3'']"
    by (simp add: example_authority_def)
  note t = foreign_keys_deduplicated [OF a b c, of Map.empty "[''key of c1'', ''key of c2'', ''key of c3'']"]
  have d: "snd (determine_keys example_authority Map.empty ''sp'') =
      Inr [''key of c1'', ''key of c2'', ''key of c3'']"
    using t l by (simp only: s)
  have e: "fst (determine_keys example_authority Map.empty ''sp'') ''sp'' =
     Some (Volatile (Some (Some 100, [''key of c1'', ''key of c2'', ''key of c3''])))"
    using t l by (simp only: s)
  show ?thesis
    using a b c s d e by (intro conjI)
qed

section \<open>Claim C7: registering a role implementor\<close>

text \<open>
  C7 as stated says that a failed registration leaves the registry unchanged. The loop
  assigns each role as it reaches it: an implementor of \<open>idpsso\<close> and \<open>ap\<close>, registered
  while \<open>ap\<close> is taken, has its \<open>idpsso\<close> mapping inserted before the \<open>ap\<close> clash
  raises.
\<close>

theorem register_role_implementor_clash_counterexample:
  "register_role_implementor example_authority (implementor_at ['''', ''saml'', ''idp''])
     (example_state [(ap, ['''', ''saml'', ''ap''])]) =
   (example_state [(ap, ['''', ''saml'', ''ap'']), (idpsso, ['''', ''saml'', ''idp''])],
    Inl (ValueError ''Role ap already registered'')) \<and>
   roles (example_state [(ap, ['''', ''saml'', ''ap'']), (idpsso, ['''', ''saml'', ''idp''])]) \<noteq>
   roles (example_state [(ap, ['''', ''saml'', ''ap''])])"
  by (simp add: register_role_implementor_def example_authority_def example_roles_def
      implementor_at_def example_state_def dict_has_def)

text \<open>
  C7, amended. With the roles of \<open>role2element\<close> distinct: registering fails with
  \<open>ValueError("Role ... already registered")\<close> when one of the implementor's roles
  already maps to a path; otherwise it appends one (role, path) mapping for each
  implemented role, in role order, and runs \<open>_update\<close>, which drops the own metadata and
  the own keys; after a successful registration, registering an implementor of one of
  the same roles fails. On a failure at the clashing role \<open>c\<close>, the existing mappings
  are kept, the implemented roles before \<open>c\<close> in role order have been inserted, and
  nothing is inserted for \<open>c\<close> or any later role (so the registry is unchanged when no
  implemented role precedes \<open>c\<close>, as for an implementor of a single role); \<open>_update\<close>
  does not run.
\<close>

theorem register_role_implementor_clash:
  assumes "distinct (map fst (role2element auth))"
  shows "((\<exists>r \<in> set (map fst (role2element auth)). r \<in> set (provides i) \<and> dict_has r (roles st)) \<longrightarrow>
            (\<exists>c. snd (register_role_implementor auth i st) =
                   Inl (ValueError (''Role '' @ role_name c @ '' already registered'')))) \<and>
         ((\<forall>r \<in> set (map fst (role2element auth)). r \<in> set (provides i) \<longrightarrow> \<not> dict_has r (roles st)) \<longrightarrow>
            register_role_implementor auth i st =
              update auth (st\<lparr>roles := roles st @
                 map (\<lambda>r. (r, getPhysicalPath i))
                   (filter (\<lambda>r. r \<in> set (provides i)) (map fst (role2element auth)))\<rparr>)) \<and>
         (metadata_by_id auth (entity_id auth) = Inr md \<longrightarrow>
            update auth st' =
              (st'\<lparr>cleared := cleared st' @ [entity_id auth],
                   keys_manager := delitem (keys_manager st') (entity_id auth)\<rparr>, Inr ())) \<and>
         (r \<in> set (map fst (role2element auth)) \<and> r \<in> set (provides i) \<and> r \<in> set (provides i') \<and>
          register_role_implementor auth i st = (st1, Inr ()) \<longrightarrow>
            (\<exists>c. snd (register_role_implementor auth i' st1) =
                   Inl (ValueError (''Role '' @ role_name c @ '' already registered'')))) \<and>
         (map fst (role2element auth) = pre @ c # post \<and> c \<in> set (provides i) \<and>
          dict_has c (roles st) \<and> (\<forall>r \<in> set pre. r \<in> set (provides i) \<longrightarrow> \<not> dict_has r (roles st)) \<longrightarrow>
            register_role_implementor auth i st =
              (st\<lparr>roles := roles st @
                  map (\<lambda>r. (r, getPhysicalPath i)) (filter (\<lambda>r. r \<in> set (provides i)) pre)\<rparr>,
               Inl (ValueError (''Role '' @ role_name c @ '' already registered''))))"
proof -
  let ?order = "map fst (role2element auth)"
  let ?mine = "\<lambda>i. filter (\<lambda>r. r \<in> set (provides i)) ?order"
  have fails: "\<exists>c. snd (register_role_implementor auth j s) =
                   Inl (ValueError (''Role '' @ role_name c @ '' already registered''))"
    if taken: "\<exists>r \<in> set ?order. r \<in> set (provides j) \<and> dict_has r (roles s)" for j s
  proof -
    obtain reg' c where "register_roles ?order j (roles s) =
        (reg', Some (ValueError (''Role '' @ role_name c @ '' already registered'')))"
      using register_roles_fails [OF assms taken] by blast
    then show ?thesis by (auto simp: register_role_implementor_def)
  qed
  have ok: "register_role_implementor auth i st =
              update auth (st\<lparr>roles := roles st @ map (\<lambda>r. (r, getPhysicalPath i)) (?mine i)\<rparr>)"
    if "\<forall>r \<in> set ?order. r \<in> set (provides i) \<longrightarrow> \<not> dict_has r (roles st)"
    using register_roles_ok [OF assms that] by (simp add: register_role_implementor_def)
  have upd: "update auth st' =
              (st'\<lparr>cleared := cleared st' @ [entity_id auth],
                   keys_manager := delitem (keys_manager st') (entity_id auth)\<rparr>, Inr ())"
    if "metadata_by_id auth (entity_id auth) = Inr md"
    using that by (simp add: update_def)
  have twice: "\<exists>c. snd (register_role_implementor auth i' st1) =
                   Inl (ValueError (''Role '' @ role_name c @ '' already registered''))"
    if r: "r \<in> set ?order" "r \<in> set (provides i)" "r \<in> set (provides i')"
      and s: "register_role_implementor auth i st = (st1, Inr ())"
  proof -
    have free: "\<forall>r \<in> set ?order. r \<in> set (provides i) \<longrightarrow> \<not> dict_has r (roles st)"
    proof (rule ccontr)
      assume "\<not> ?thesis"
      then have "\<exists>r \<in> set ?order. r \<in> set (provides i) \<and> dict_has r (roles st)" by blast
      from fails [OF this] s show False by auto
    qed
    have "update auth (st\<lparr>roles := roles st @
          map (\<lambda>r. (r, getPhysicalPath i)) (?mine i)\<rparr>) = (st1, Inr ())"
      using ok [OF free] s by simp
    then have "fst (update auth (st\<lparr>roles := roles st @
          map (\<lambda>r. (r, getPhysicalPath i)) (?mine i)\<rparr>)) = st1"
      by simp
    then have "roles st1 = roles st @ map (\<lambda>r. (r, getPhysicalPath i)) (?mine i)"
      using update_roles [of auth "st\<lparr>roles := roles st @
          map (\<lambda>r. (r, getPhysicalPath i)) (?mine i)\<rparr>"]
      by simp
    moreover have "r \<in> set (?mine i)" using r by simp
    ultimately have "dict_has r (roles st1)" by (simp only: dict_has_mapped)
    then show ?thesis using r by (intro fails) blast
  qed
  have clash: "register_role_implementor auth i st =
          (st\<lparr>roles := roles st @
              map (\<lambda>r. (r, getPhysicalPath i)) (filter (\<lambda>r. r \<in> set (provides i)) pre)\<rparr>,
           Inl (ValueError (''Role '' @ role_name c @ '' already registered'')))"
    if "?order = pre @ c # post" "c \<in> set (provides i)" "dict_has c (roles st)"
      "\<forall>r \<in> set pre. r \<in> set (provides i) \<longrightarrow> \<not> dict_has r (roles st)"
  proof -
    have "distinct (pre @ c # post)" using assms that(1) by simp
    from register_roles_clash [OF this that(2,3,4)] show ?thesis
      by (simp add: register_role_implementor_def that(1))
  qed
  show ?thesis
    using fails [of i st] ok upd twice clash by blast
qed

text \<open>
  Registering an implementor of \<open>idpsso\<close> and \<open>ap\<close> into an empty registry, then
  another implementor of the same roles.
\<close>

theorem register_role_implementor_clash_witness:
  "distinct (map fst (role2element example_authority)) \<and>
   register_role_implementor example_authority (implementor_at ['''', ''saml'', ''idp''])
       (example_state []) =
     (\<lparr>roles = [(idpsso, ['''', ''saml'', ''idp'']), (ap, ['''', ''saml'', ''idp''])],
       keys_manager = Map.empty, cleared = [''https://idp.example.org'']\<rparr>, Inr ()) \<and>
   snd (register_role_implementor example_authority (implementor_at ['''', ''saml'', ''other''])
       \<lparr>roles = [(idpsso, ['''', ''saml'', ''idp'']), (ap, ['''', ''saml'', ''idp''])],
        keys_manager = Map.empty, cleared = [''https://idp.example.org'']\<rparr>) =
     Inl (ValueError ''Role idpsso already registered'')"
proof -
  let ?i = "implementor_at ['''', ''saml'', ''idp'']"
  let ?st1 = "\<lparr>roles = [(idpsso, ['''', ''saml'', ''idp'']), (ap, ['''', ''saml'', ''idp''])],
       keys_manager = (Map.empty :: string keys_manager), cleared = [''https://idp.example.org'']\<rparr>"
  have d: "distinct (map fst (role2element example_authority))"
    by (simp add: example_authority_def example_roles_def)
  have o: "map fst (role2element example_authority) = [] @ idpsso # [spsso, authn, pdp, ap]"
    by (simp add: example_authority_def example_roles_def)
  have free: "\<forall>r \<in> set (map fst (role2element example_authority)).
      r \<in> set (provides ?i) \<longrightarrow> \<not> dict_has r (roles (example_state []))"
    by (simp add: example_state_def dict_has_def)
  have md: "metadata_by_id example_authority (entity_id example_authority) = Inr example_peer"
    by (simp add: example_authority_def)
  note t = register_role_implementor_clash [OF d, of ?i "example_state []" example_peer
      "(example_state [])\<lparr>roles := roles (example_state []) @
                 map (\<lambda>r. (r, getPhysicalPath ?i))
                   (filter (\<lambda>r. r \<in> set (provides ?i)) (map fst (role2element example_authority)))\<rparr>"]
  have 1: "register_role_implementor example_authority ?i (example_state []) = (?st1, Inr ())"
    using t free md
    by (simp add: example_state_def example_authority_def example_roles_def implementor_at_def
        delitem_def)
  note u = register_role_implementor_clash [OF d, of "implementor_at ['''', ''saml'', ''other'']" ?st1
      example_peer ?st1 idpsso ?i ?st1 "[]" idpsso "[spsso, authn, pdp, ap]"]
  have 2: "snd (register_role_implementor example_authority (implementor_at ['''', ''saml'', ''other'']) ?st1) =
     Inl (ValueError ''Role idpsso already registered'')"
    using u o by (simp add: implementor_at_def dict_has_def)
  show ?thesis using d 1 2 by (intro conjI)
qed

section \<open>Claim C8: exporting the own metadata\<close>

text \<open>
  C8 as stated says that a registry with a role other than \<open>ap\<close> yields a document.
  With the role \<open>authn\<close> registered, and every collaborator answering, the export
  raises an \<open>AttributeError\<close>: the class has no \<open>gen_metadata_authn\<close>.
\<close>

theorem export_own_metadata_roles_counterexample:
  "export_own_metadata example_authority 0 [(authn, ['''', ''saml'', ''authn''])] =
     Inl (no_attribute ''gen_metadata_authn'')"
  by (simp add: export_own_metadata_def export_role_def example_authority_def example_roles_def
      implementor_at_def make_absolute_def join_def isabs_def new_descriptor_def
      set_NameIDFormat_def gen_metadata_def)


text \<open>
  C8, amended. The export fails with the \<open>ValueError\<close> of a missing role when the
  registry is empty and when it holds the \<open>ap\<close> role only. A document it returns holds,
  in the list of each kind of element, exactly the descriptors exported for the
  registered roles of that kind other than \<open>ap\<close>, in registry order; counted over the
  kinds, that is one role descriptor for each registered role other than \<open>ap\<close>, and
  there is such a role. It does return a document when there is such a role, every such
  role is \<open>idpsso\<close> or \<open>spsso\<close>, and the collaborators answer (implementor found,
  certificate files read, name-id formats adapted). A registry that holds an \<open>authn\<close> or
  a \<open>pdp\<close> role, wherever in it, never yields a document; when the collaborators answer
  for that role and for the \<open>idpsso\<close> and \<open>spsso\<close> roles before it, the exception is the
  \<open>AttributeError\<close> of the missing generator.
\<close>

theorem export_own_metadata_roles:
  "export_own_metadata auth now [] = Inl no_roles \<and>
   ((\<forall>(r, p) \<in> set reg. r = ap) \<longrightarrow> export_own_metadata auth now reg = Inl no_roles) \<and>
   (export_own_metadata auth now reg = Inr ed \<longrightarrow>
      (\<exists>(r, p) \<in> set reg. r \<noteq> ap) \<and>
      entityID ed = entity_id auth \<and> validUntil ed = now + metadata_validity auth \<and>
      (\<forall>el. list_all2 (\<lambda>rd (r, p). export_role auth r p = Inr rd \<and> element rd = el)
              (role_descriptors ed el)
              (filter (\<lambda>(r, p). r \<noteq> ap \<and> map_of (role2element auth) r = Some el) reg)) \<and>
      descriptor_count auth ed = length (filter (\<lambda>(r, p). r \<noteq> ap) reg)) \<and>
   ((\<exists>(r, p) \<in> set reg. r \<noteq> ap) \<and>
    (\<forall>(r, p) \<in> set reg. r \<noteq> ap \<longrightarrow> (r = idpsso \<or> r = spsso) \<and> collaborators_ok auth r p) \<longrightarrow>
      (\<exists>ed. export_own_metadata auth now reg = Inr ed)) \<and>
   ((\<exists>(r, p) \<in> set reg. r = authn \<or> r = pdp) \<longrightarrow>
      (\<exists>e. export_own_metadata auth now reg = Inl e)) \<and>
   (reg = pre @ (r, p) # post \<and> (r = authn \<or> r = pdp) \<and> collaborators_ok auth r p \<and>
    (\<forall>(r', p') \<in> set pre. r' \<noteq> ap \<longrightarrow> (r' = idpsso \<or> r' = spsso) \<and> collaborators_ok auth r' p') \<longrightarrow>
      export_own_metadata auth now reg = Inl (no_attribute (''gen_metadata_'' @ role_name r)))"
proof (intro conjI impI)
  show "export_own_metadata auth now [] = Inl no_roles"
    by (simp add: export_own_metadata_def)
next
  assume "\<forall>(r, p) \<in> set reg. r = ap"
  then show "export_own_metadata auth now reg = Inl no_roles"
    by (simp add: export_own_metadata_def export_roles_only_ap)
next
  assume ok: "export_own_metadata auth now reg = Inr ed"
  then obtain rds rno where l: "export_roles auth reg (\<lambda>el. []) 0 = Inr (rds, rno)"
    and rno: "rno \<noteq> 0"
    and ed: "ed = \<lparr>entityID = entity_id auth, validUntil = now + metadata_validity auth,
                   role_descriptors = rds\<rparr>"
    by (auto simp: export_own_metadata_def split: sum.splits if_splits)
  from export_roles_acc [OF l] have n: "rno = length (filter (\<lambda>(r, p). r \<noteq> ap) reg)"
    by simp
  have "filter (\<lambda>(r, p). r \<noteq> ap) reg \<noteq> []" using n rno by auto
  then show "\<exists>(r, p) \<in> set reg. r \<noteq> ap"
    by (auto simp: filter_empty_conv)
  show "entityID ed = entity_id auth" using ed by simp
  show "validUntil ed = now + metadata_validity auth" using ed by simp
  show "\<forall>el. list_all2 (\<lambda>rd (r, p). export_role auth r p = Inr rd \<and> element rd = el)
              (role_descriptors ed el)
              (filter (\<lambda>(r, p). r \<noteq> ap \<and> map_of (role2element auth) r = Some el) reg)"
  proof
    fix el
    from export_roles_acc [OF l] obtain new where new: "rds el = [] @ new"
      and all: "list_all2 (\<lambda>rd (r, p). export_role auth r p = Inr rd) new
        (filter (\<lambda>(r, p). r \<noteq> ap \<and> map_of (role2element auth) r = Some el) reg)"
      by blast
    have "list_all2 (\<lambda>rd (r, p). export_role auth r p = Inr rd \<and> element rd = el) new
        (filter (\<lambda>(r, p). r \<noteq> ap \<and> map_of (role2element auth) r = Some el) reg)"
    proof (rule list.rel_mono_strong [OF all])
      fix rd x
      assume "rd \<in> set new"
        and x: "x \<in> set (filter (\<lambda>(r, p). r \<noteq> ap \<and> map_of (role2element auth) r = Some el) reg)"
        and e: "case x of (r, p) \<Rightarrow> export_role auth r p = Inr rd"
      obtain r p where rp: "x = (r, p)" by (cases x)
      have "export_role auth r p = Inr rd" using e rp by simp
      moreover from this have "map_of (role2element auth) r = Some (element rd)"
        by (rule export_role_element)
      moreover have "map_of (role2element auth) r = Some el" using x rp by simp
      ultimately show "case x of (r, p) \<Rightarrow> export_role auth r p = Inr rd \<and> element rd = el"
        using rp by simp
    qed
    then show "list_all2 (\<lambda>rd (r, p). export_role auth r p = Inr rd \<and> element rd = el)
              (role_descriptors ed el)
              (filter (\<lambda>(r, p). r \<noteq> ap \<and> map_of (role2element auth) r = Some el) reg)"
      using new ed by simp
  qed
  show "descriptor_count auth ed = length (filter (\<lambda>(r, p). r \<noteq> ap) reg)"
    by (rule export_count [OF ok])
next
  assume a: "(\<exists>(r, p) \<in> set reg. r \<noteq> ap) \<and>
    (\<forall>(r, p) \<in> set reg. r \<noteq> ap \<longrightarrow> (r = idpsso \<or> r = spsso) \<and> collaborators_ok auth r p)"
  then obtain rds rno where l: "export_roles auth reg (\<lambda>el. []) 0 = Inr (rds, rno)"
    using export_roles_ok [of reg auth "\<lambda>el. []" 0] by blast
  from export_roles_acc [OF l] have "rno = length (filter (\<lambda>(r, p). r \<noteq> ap) reg)"
    by simp
  moreover have "filter (\<lambda>(r, p). r \<noteq> ap) reg \<noteq> []"
    using a by (auto simp: filter_empty_conv)
  ultimately have "rno \<noteq> 0" by simp
  then show "\<exists>ed. export_own_metadata auth now reg = Inr ed"
    using l by (simp add: export_own_metadata_def)
next
  assume "\<exists>(r, p) \<in> set reg. r = authn \<or> r = pdp"
  from export_roles_never [OF this, of auth "\<lambda>el. []" 0]
  show "\<exists>e. export_own_metadata auth now reg = Inl e"
    by (auto simp: export_own_metadata_def)
next
  assume a: "reg = pre @ (r, p) # post \<and> (r = authn \<or> r = pdp) \<and> collaborators_ok auth r p \<and>
    (\<forall>(r', p') \<in> set pre. r' \<noteq> ap \<longrightarrow> (r' = idpsso \<or> r' = spsso) \<and> collaborators_ok auth r' p')"
  then obtain rds rno where pre: "export_roles auth pre (\<lambda>el. []) 0 = Inr (rds, rno)"
    using export_roles_ok [of pre auth "\<lambda>el. []" 0] by blast
  have r: "r \<noteq> ap" using a by auto
  have "export_role auth r p = Inl (no_attribute (''gen_metadata_'' @ role_name r))"
    using a export_role_unsupported [of r auth p] by blast
  then have "export_roles auth ((r, p) # post) rds rno =
      Inl (no_attribute (''gen_metadata_'' @ role_name r))"
    using r by simp
  then have "export_roles auth reg (\<lambda>el. []) 0 = Inl (no_attribute (''gen_metadata_'' @ role_name r))"
    using a pre by (simp add: export_roles_append)
  then show "export_own_metadata auth now reg = Inl (no_attribute (''gen_metadata_'' @ role_name r))"
    by (simp add: export_own_metadata_def)
qed


text \<open>
  The registries \<open>{ap}\<close>, \<open>{ap, idpsso}\<close> and \<open>{idpsso, pdp}\<close>, the last with the
  unsupported role behind a supported one.
\<close>

theorem export_own_metadata_roles_witness:
  "collaborators_ok example_authority idpsso ['''', ''saml'', ''idp''] \<and>
   collaborators_ok example_authority pdp ['''', ''saml'', ''pdp''] \<and>
   export_own_metadata example_authority 7 [(ap, ['''', ''saml'', ''ap''])] = Inl no_roles \<and>
   (case export_own_metadata example_authority 7
           [(ap, ['''', ''saml'', ''ap'']), (idpsso, ['''', ''saml'', ''idp''])] of
      Inl e \<Rightarrow> None
    | Inr ed \<Rightarrow> Some (map element (role_descriptors ed ''IDPSSODescriptor''),
                       role_descriptors ed ''SPSSODescriptor'',
                       descriptor_count example_authority ed)) =
     Some ([''IDPSSODescriptor''], [], 1) \<and>
   export_own_metadata example_authority 7
       [(idpsso, ['''', ''saml'', ''idp'']), (pdp, ['''', ''saml'', ''pdp''])] =
     Inl (no_attribute ''gen_metadata_pdp'')"
proof -
  let ?reg = "[(ap, ['''', ''saml'', ''ap'']), (idpsso, ['''', ''saml'', ''idp''])]"
  let ?bad = "[(idpsso, ['''', ''saml'', ''idp'']), (pdp, ['''', ''saml'', ''pdp''])]"
  let ?ed = "projr (export_own_metadata example_authority 7 ?reg)"
  have c1: "collaborators_ok example_authority idpsso ['''', ''saml'', ''idp'']"
    and c2: "collaborators_ok example_authority pdp ['''', ''saml'', ''pdp'']"
    by (simp_all add: collaborators_ok_def example_authority_def example_roles_def readable_def
        implementor_at_def)
  note t = export_own_metadata_roles [of example_authority 7 "[(ap, ['''', ''saml'', ''ap''])]"
      ?ed "[]" pdp "['''', ''saml'', ''pdp'']" "[]"]
  note u = export_own_metadata_roles [of example_authority 7 ?reg
      ?ed "[]" pdp "['''', ''saml'', ''pdp'']" "[]"]
  note v = export_own_metadata_roles [of example_authority 7 ?bad
      ?ed "[(idpsso, ['''', ''saml'', ''idp''])]" pdp "['''', ''saml'', ''pdp'']" "[]"]
  have 1: "export_own_metadata example_authority 7 [(ap, ['''', ''saml'', ''ap''])] = Inl no_roles"
    using t by simp
  have "\<exists>ed. export_own_metadata example_authority 7 ?reg = Inr ed"
    using u c1 by simp
  then have ex: "export_own_metadata example_authority 7 ?reg = Inr ?ed"
    by auto
  have k: "list_all2 (\<lambda>rd (r, p). export_role example_authority r p = Inr rd \<and> element rd = k)
              (role_descriptors ?ed k)
              (filter (\<lambda>(r, p). r \<noteq> ap \<and> map_of (role2element example_authority) r = Some k) ?reg)"
    for k
    using u ex by blast
  have i: "map element (role_descriptors ?ed ''IDPSSODescriptor'') = [''IDPSSODescriptor'']"
    using k [of "''IDPSSODescriptor''"]
    by (auto simp: list_all2_Cons2 example_authority_def example_roles_def)
  have s: "role_descriptors ?ed ''SPSSODescriptor'' = []"
    using k [of "''SPSSODescriptor''"]
    by (simp add: example_authority_def example_roles_def)
  have n: "descriptor_count example_authority ?ed = 1"
    using u ex by simp
  have 2: "(case export_own_metadata example_authority 7 ?reg of
      Inl e \<Rightarrow> None
    | Inr ed \<Rightarrow> Some (map element (role_descriptors ed ''IDPSSODescriptor''),
                       role_descriptors ed ''SPSSODescriptor'',
                       descriptor_count example_authority ed)) =
     Some ([''IDPSSODescriptor''], [], 1)"
    by (subst ex) (simp add: i s n)
  have 3: "export_own_metadata example_authority 7 ?bad = Inl (no_attribute ''gen_metadata_pdp'')"
    using v c1 c2 by simp
  show ?thesis using c1 c2 1 2 3 by (intro conjI)
qed

section \<open>Claim C9: refusing the deletion of a role implementor\<close>




end
